theory Spec2Isabelle
  imports Complex_Main
begin

section \<open>Text: the string operations the client uses\<close>

text \<open>
  Text is a \<^typ>\<open>string\<close>: a list of characters, each a code point below 256. The
  controller's protocol is ASCII. Times are \<^typ>\<open>real\<close> seconds, Python's unbounded
  integers are \<^typ>\<open>int\<close>.
\<close>

text \<open>The characters \<^verbatim>\<open>str.isspace\<close> accepts below 256: they are what
  \<^verbatim>\<open>strip()\<close> removes and \<^verbatim>\<open>split()\<close> splits at.\<close>

definition is_space :: "char \<Rightarrow> bool" where
  "is_space c = (c \<in> set [CHR 0x09, CHR 0x0A, CHR 0x0B, CHR 0x0C, CHR 0x0D,
                            CHR 0x1C, CHR 0x1D, CHR 0x1E, CHR 0x1F, CHR 0x20,
                            CHR 0x85, CHR 0xA0])"

definition is_digit :: "char \<Rightarrow> bool" where
  "is_digit c = (c \<in> set ''0123456789'')"

definition digit_char :: "nat \<Rightarrow> char" where
  "digit_char d = ''0123456789'' ! d"

text \<open>The value of a digit: its place in the row of the ten digits.\<close>

definition digit_val :: "char \<Rightarrow> nat" where
  "digit_val c = length (takeWhile (\<lambda>d. d \<noteq> c) ''0123456789'')"

text \<open>\<^verbatim>\<open>str(n)\<close> for a natural number: its decimal digits, no leading zero.\<close>

fun str_of_nat :: "nat \<Rightarrow> string" where
  "str_of_nat n =
     (if n < 10 then [digit_char n] else str_of_nat (n div 10) @ [digit_char (n mod 10)])"

declare str_of_nat.simps [simp del]

text \<open>\<^verbatim>\<open>f"{pos}"\<close> for an integer: a minus sign for a negative one, then the digits.\<close>

definition str_of_int :: "int \<Rightarrow> string" where
  "str_of_int i = (if i < 0 then CHR ''-'' # str_of_nat (nat (- i)) else str_of_nat (nat i))"

text \<open>\<^verbatim>\<open>s.startswith(p)\<close>.\<close>

definition startswith :: "string \<Rightarrow> string \<Rightarrow> bool" where
  "startswith p s = (take (length p) s = p)"

text \<open>\<^verbatim>\<open>s.strip()\<close>: white space removed at both ends.\<close>

definition strip :: "string \<Rightarrow> string" where
  "strip s = rev (dropWhile is_space (rev (dropWhile is_space s)))"

text \<open>\<^verbatim>\<open>s.rstrip("/")\<close>.\<close>

definition rstrip_slash :: "string \<Rightarrow> string" where
  "rstrip_slash s = rev (dropWhile (\<lambda>c. c = CHR ''/'') (rev s))"

text \<open>\<^verbatim>\<open>sep.join(xs)\<close>.\<close>

fun join :: "string \<Rightarrow> string list \<Rightarrow> string" where
  "join sep [] = []"
| "join sep [x] = x"
| "join sep (x # y # ys) = x @ sep @ join sep (y # ys)"

text \<open>\<^verbatim>\<open>s.split()\<close> with no argument: the maximal runs of characters that are not
  white space; \<open>cur\<close> is the run being read.\<close>

fun split_ws_from :: "string \<Rightarrow> string \<Rightarrow> string list" where
  "split_ws_from cur [] = (if cur = [] then [] else [cur])"
| "split_ws_from cur (c # cs) =
     (if is_space c then (if cur = [] then split_ws_from [] cs else cur # split_ws_from [] cs)
      else split_ws_from (cur @ [c]) cs)"

definition split_ws :: "string \<Rightarrow> string list" where
  "split_ws s = split_ws_from [] s"

text \<open>\<^verbatim>\<open>s.split(sep)\<close> for a one-character separator: always at least one field.\<close>

fun split_on_from :: "char \<Rightarrow> string \<Rightarrow> string \<Rightarrow> string list" where
  "split_on_from sep cur [] = [cur]"
| "split_on_from sep cur (c # cs) =
     (if c = sep then cur # split_on_from sep [] cs else split_on_from sep (cur @ [c]) cs)"

definition split_on :: "char \<Rightarrow> string \<Rightarrow> string list" where
  "split_on sep s = split_on_from sep [] s"

section \<open>Errors\<close>

text \<open>
  The exceptions the client can raise, as values. \<open>ValueError\<close> is what the constructor
  raises for a URL it does not support, and what \<^verbatim>\<open>int()\<close> and
  \<^verbatim>\<open>time.sleep\<close> raise for an argument they refuse; \<open>RuntimeError\<close> is raised
  by an operation on a client that is not connected; \<open>IndexError\<close> by an index out of
  range; \<open>UnicodeDecodeError\<close> by \<^verbatim>\<open>decode()\<close> on bytes that are not text;
  \<open>TransportError\<close> stands for a failed HTTP request.
\<close>

datatype error =
    ValueError string
  | RuntimeError string
  | IndexError
  | UnicodeDecodeError
  | TransportError

section \<open>Results, status and the client\<close>

text \<open>The dictionary a command exchange returns: \<^verbatim>\<open>{"success": ..., "message": ...}\<close>.\<close>

record CommandResult =
  success :: bool
  message :: string

record RoboarmStatus =
  enabled :: bool
  moving :: bool
  positions :: "string \<rightharpoonup> int"
  targets :: "string \<rightharpoonup> int"
  distances :: "string \<rightharpoonup> int"
  ip :: "string option"
  uptime :: "int option"

text \<open>
  The JSON object of \<^verbatim>\<open>GET /api/status\<close>, read at the seven keys
  \<^verbatim>\<open>from_dict\<close> looks up: a key that is absent is \<open>None\<close>, a key that is present
  holds a value of the type the dataclass declares for its field.
\<close>

record status_json =
  json_enabled :: "bool option"
  json_moving :: "bool option"
  json_positions :: "(string \<rightharpoonup> int) option"
  json_targets :: "(string \<rightharpoonup> int) option"
  json_distances :: "(string \<rightharpoonup> int) option"
  json_ip :: "string option"
  json_uptime :: "int option"

text \<open>\<^verbatim>\<open>data.get(key, default)\<close>.\<close>

definition get_default :: "'a option \<Rightarrow> 'a \<Rightarrow> 'a" where
  "get_default v d = (case v of None \<Rightarrow> d | Some x \<Rightarrow> x)"

definition from_dict :: "status_json \<Rightarrow> RoboarmStatus" where
  "from_dict data =
     \<lparr>enabled = get_default (json_enabled data) False,
      moving = get_default (json_moving data) False,
      positions = get_default (json_positions data) Map.empty,
      targets = get_default (json_targets data) Map.empty,
      distances = get_default (json_distances data) Map.empty,
      ip = json_ip data,
      uptime = json_uptime data\<rparr>"

text \<open>
  The client object. \<open>self_serial\<close> and \<open>self_http_client\<close> hold the handle of the
  open transport, or \<open>None\<close>; \<open>self_serial_port\<close> is set in serial mode only and
  \<open>self_base_url\<close> in HTTP mode only.
\<close>

record RoboarmClient =
  self_url :: string
  self_timeout :: real
  self_baud_rate :: int
  self_serial :: "nat option"
  self_http_client :: "nat option"
  self_mode :: string
  self_serial_port :: "string option"
  self_base_url :: "string option"

text \<open>What \<^verbatim>\<open>urlparse\<close> returns, at the three fields the constructor reads.\<close>

record ParseResult =
  scheme :: string
  netloc :: string
  path :: string

text \<open>
  The constructor. \<^verbatim>\<open>urlparse\<close> is the standard library's: it is a parameter, a
  function that returns the parsed URL or raises. The constructor opens nothing: it has
  no access to the world below.
\<close>

definition RoboarmClient_init ::
  "(string \<Rightarrow> error + ParseResult) \<Rightarrow> string \<Rightarrow> real \<Rightarrow> int \<Rightarrow> error + RoboarmClient" where
  "RoboarmClient_init urlparse url timeout baud_rate =
     (case urlparse url of
        Inl e \<Rightarrow> Inl e
      | Inr parsed \<Rightarrow>
          if scheme parsed = ''serial'' then
            Inr \<lparr>self_url = url, self_timeout = timeout, self_baud_rate = baud_rate,
                 self_serial = None, self_http_client = None, self_mode = ''serial'',
                 self_serial_port = Some (if path parsed \<noteq> [] then path parsed else netloc parsed),
                 self_base_url = None\<rparr>
          else if scheme parsed \<in> set [''http'', ''https''] then
            Inr \<lparr>self_url = url, self_timeout = timeout, self_baud_rate = baud_rate,
                 self_serial = None, self_http_client = None, self_mode = ''http'',
                 self_serial_port = None,
                 self_base_url = Some (rstrip_slash url)\<rparr>
          else Inl (ValueError (''Unsupported URL scheme: '' @ scheme parsed)))"

section \<open>The world outside the client\<close>

text \<open>
  \<open>clock\<close> is what \<^verbatim>\<open>time.time()\<close> returns. \<open>serial_in\<close> is what the controller
  sends: each entry is one \<^verbatim>\<open>readline()\<close>, with the time from which it is waiting
  in the port's buffer and its bytes decoded (\<open>None\<close> when they are not text), read in
  order. \<open>serial_out\<close> is what has been written to the port. \<open>api_command\<close> and
  \<open>api_status\<close> are the replies of the two HTTP endpoints, in order (\<open>None\<close> for a
  request that fails), and \<open>http_requests\<close> the requests made. \<open>open_handles\<close> are
  the transports that are open and \<open>next_handle\<close> the next fresh handle. Reading,
  writing and a request take no time of their own; only \<^verbatim>\<open>time.sleep\<close> moves the
  clock. A port or an HTTP client that is asked to open does open, and an open port
  does not fail. An operation that can raise returns \<open>Inl\<close> of the exception, or
  \<open>Inr\<close> of its result and the world it leaves.
\<close>

datatype request = Post string string | Get string

record world =
  clock :: real
  serial_in :: "(real \<times> string option) list"
  serial_out :: "string list"
  api_command :: "CommandResult option list"
  api_status :: "status_json option list"
  http_requests :: "request list"
  open_handles :: "nat set"
  next_handle :: nat

text \<open>\<^verbatim>\<open>time.sleep(d)\<close>: refuses a negative length.\<close>

definition sleep :: "real \<Rightarrow> world \<Rightarrow> error + world" where
  "sleep d w =
     (if d < 0 then Inl (ValueError ''sleep length must be non-negative'')
      else Inr (w\<lparr>clock := clock w + d\<rparr>))"

text \<open>\<^verbatim>\<open>connect\<close>: opens the transport of the client's mode. On the serial port it
  waits two seconds and drops what has arrived by then.\<close>

definition connect :: "RoboarmClient \<Rightarrow> world \<Rightarrow> RoboarmClient \<times> world" where
  "connect self w =
     (let h = next_handle w;
          w1 = w\<lparr>open_handles := insert h (open_handles w), next_handle := Suc h\<rparr>
      in if self_mode self = ''serial'' then
           (let w2 = w1\<lparr>clock := clock w1 + 2\<rparr>
            in (self\<lparr>self_serial := Some h\<rparr>,
                w2\<lparr>serial_in := dropWhile (\<lambda>(t, raw). t \<le> clock w2) (serial_in w2)\<rparr>))
         else (self\<lparr>self_http_client := Some h\<rparr>, w1))"

text \<open>\<^verbatim>\<open>disconnect\<close>: closes whichever transport is open and forgets it.\<close>

definition disconnect :: "RoboarmClient \<Rightarrow> world \<Rightarrow> RoboarmClient \<times> world" where
  "disconnect self w =
     (let (self1, w1) =
            (case self_serial self of
               Some h \<Rightarrow> (self\<lparr>self_serial := None\<rparr>, w\<lparr>open_handles := open_handles w - {h}\<rparr>)
             | None \<Rightarrow> (self, w))
      in case self_http_client self1 of
           Some h \<Rightarrow> (self1\<lparr>self_http_client := None\<rparr>,
                      w1\<lparr>open_handles := open_handles w1 - {h}\<rparr>)
         | None \<Rightarrow> (self1, w1))"

text \<open>\<^verbatim>\<open>__exit__\<close> is \<^verbatim>\<open>disconnect\<close>, whatever the arguments.\<close>

definition exit_client :: "RoboarmClient \<Rightarrow> world \<Rightarrow> RoboarmClient \<times> world" where
  "exit_client self w = disconnect self w"

section \<open>The serial exchange\<close>

text \<open>
  The read loop of \<^verbatim>\<open>_send_serial\<close>. While the clock is before \<open>timeout_end\<close>: when
  a line is waiting it is read, decoded and stripped, a line that is not empty is kept,
  and a kept line that starts with \<open>ok\<close> or \<open>error:\<close> ends the loop; when nothing is
  waiting the loop sleeps a hundredth of a second. It returns the lines kept.
\<close>

function read_response :: "real \<Rightarrow> string list \<Rightarrow> world \<Rightarrow> error + (string list \<times> world)" where
  "read_response timeout_end response_lines w =
     (if clock w < timeout_end then
        (case serial_in w of
           [] \<Rightarrow> read_response timeout_end response_lines (w\<lparr>clock := clock w + 0.01\<rparr>)
         | (t, raw) # rest \<Rightarrow>
             if t \<le> clock w then
               (case raw of
                  None \<Rightarrow> Inl UnicodeDecodeError
                | Some text \<Rightarrow>
                    (let line = strip text; w' = w\<lparr>serial_in := rest\<rparr>
                     in if line \<noteq> [] then
                          (if startswith ''ok'' line \<or> startswith ''error:'' line
                           then Inr (response_lines @ [line], w')
                           else read_response timeout_end (response_lines @ [line]) w')
                        else read_response timeout_end response_lines w'))
             else read_response timeout_end response_lines (w\<lparr>clock := clock w + 0.01\<rparr>))
      else Inr (response_lines, w))"
  by pat_completeness auto
termination
proof (relation "measure (\<lambda>(timeout_end, response_lines, w).
                   length (serial_in w) + nat \<lceil>(timeout_end - clock w) * 100\<rceil>)")
  show "wf (measure (\<lambda>(timeout_end, response_lines, w).
              length (serial_in w) + nat \<lceil>(timeout_end - clock w) * 100\<rceil>))"
    by simp
next
  fix timeout_end :: real and response_lines :: "string list" and w :: world
  assume "clock w < timeout_end"
  then have "nat \<lceil>(timeout_end - (clock w + 0.01)) * 100\<rceil> < nat \<lceil>(timeout_end - clock w) * 100\<rceil>"
    by (simp add: algebra_simps) linarith
  then show "((timeout_end, response_lines, w\<lparr>clock := clock w + 0.01\<rparr>), timeout_end, response_lines, w)
        \<in> measure (\<lambda>(timeout_end, response_lines, w).
              length (serial_in w) + nat \<lceil>(timeout_end - clock w) * 100\<rceil>)"
    by simp
  then show "((timeout_end, response_lines, w\<lparr>clock := clock w + 0.01\<rparr>), timeout_end, response_lines, w)
        \<in> measure (\<lambda>(timeout_end, response_lines, w).
              length (serial_in w) + nat \<lceil>(timeout_end - clock w) * 100\<rceil>)" .
qed simp_all

declare read_response.simps [simp del]

text \<open>The loop, one equation for each way through its body.\<close>

lemma read_response_deadline:
  "\<not> clock w < timeout_end \<Longrightarrow> read_response timeout_end ls w = Inr (ls, w)"
  by (simp add: read_response.simps [of timeout_end ls w])

lemma read_response_nothing:
  "clock w < timeout_end \<Longrightarrow> serial_in w = [] \<Longrightarrow>
   read_response timeout_end ls w = read_response timeout_end ls (w\<lparr>clock := clock w + 0.01\<rparr>)"
  by (simp add: read_response.simps [of timeout_end ls w])

lemma read_response_later:
  "clock w < timeout_end \<Longrightarrow> serial_in w = (t, raw) # rest \<Longrightarrow> \<not> t \<le> clock w \<Longrightarrow>
   read_response timeout_end ls w = read_response timeout_end ls (w\<lparr>clock := clock w + 0.01\<rparr>)"
  by (simp add: read_response.simps [of timeout_end ls w])

lemma read_response_undecodable:
  "clock w < timeout_end \<Longrightarrow> serial_in w = (t, None) # rest \<Longrightarrow> t \<le> clock w \<Longrightarrow>
   read_response timeout_end ls w = Inl UnicodeDecodeError"
  by (simp add: read_response.simps [of timeout_end ls w])

lemma read_response_blank:
  "clock w < timeout_end \<Longrightarrow> serial_in w = (t, Some s) # rest \<Longrightarrow> t \<le> clock w \<Longrightarrow>
   strip s = [] \<Longrightarrow>
   read_response timeout_end ls w = read_response timeout_end ls (w\<lparr>serial_in := rest\<rparr>)"
  by (simp add: read_response.simps [of timeout_end ls w])

lemma read_response_final:
  "clock w < timeout_end \<Longrightarrow> serial_in w = (t, Some s) # rest \<Longrightarrow> t \<le> clock w \<Longrightarrow>
   strip s \<noteq> [] \<Longrightarrow> startswith ''ok'' (strip s) \<or> startswith ''error:'' (strip s) \<Longrightarrow>
   read_response timeout_end ls w = Inr (ls @ [strip s], w\<lparr>serial_in := rest\<rparr>)"
  by (simp add: read_response.simps [of timeout_end ls w])

lemma read_response_more:
  "clock w < timeout_end \<Longrightarrow> serial_in w = (t, Some s) # rest \<Longrightarrow> t \<le> clock w \<Longrightarrow>
   strip s \<noteq> [] \<Longrightarrow> \<not> (startswith ''ok'' (strip s) \<or> startswith ''error:'' (strip s)) \<Longrightarrow>
   read_response timeout_end ls w =
     read_response timeout_end (ls @ [strip s]) (w\<lparr>serial_in := rest\<rparr>)"
  by (simp add: read_response.simps [of timeout_end ls w])

text \<open>An induction rule that follows the loop case by case.\<close>

lemma read_response_cases_induct [case_names deadline nothing later undecodable blank final more]:
  fixes P :: "real \<Rightarrow> string list \<Rightarrow> world \<Rightarrow> bool"
  assumes "\<And>te ls w. \<not> clock w < te \<Longrightarrow> P te ls w"
    and "\<And>te ls w. clock w < te \<Longrightarrow> serial_in w = [] \<Longrightarrow>
           P te ls (w\<lparr>clock := clock w + 0.01\<rparr>) \<Longrightarrow> P te ls w"
    and "\<And>te ls w t raw rest. clock w < te \<Longrightarrow> serial_in w = (t, raw) # rest \<Longrightarrow>
           \<not> t \<le> clock w \<Longrightarrow> P te ls (w\<lparr>clock := clock w + 0.01\<rparr>) \<Longrightarrow> P te ls w"
    and "\<And>te ls w t rest. clock w < te \<Longrightarrow> serial_in w = (t, None) # rest \<Longrightarrow>
           t \<le> clock w \<Longrightarrow> P te ls w"
    and "\<And>te ls w t s rest. clock w < te \<Longrightarrow> serial_in w = (t, Some s) # rest \<Longrightarrow>
           t \<le> clock w \<Longrightarrow> strip s = [] \<Longrightarrow> P te ls (w\<lparr>serial_in := rest\<rparr>) \<Longrightarrow> P te ls w"
    and "\<And>te ls w t s rest. clock w < te \<Longrightarrow> serial_in w = (t, Some s) # rest \<Longrightarrow>
           t \<le> clock w \<Longrightarrow> strip s \<noteq> [] \<Longrightarrow>
           startswith ''ok'' (strip s) \<or> startswith ''error:'' (strip s) \<Longrightarrow> P te ls w"
    and "\<And>te ls w t s rest. clock w < te \<Longrightarrow> serial_in w = (t, Some s) # rest \<Longrightarrow>
           t \<le> clock w \<Longrightarrow> strip s \<noteq> [] \<Longrightarrow>
           \<not> (startswith ''ok'' (strip s) \<or> startswith ''error:'' (strip s)) \<Longrightarrow>
           P te (ls @ [strip s]) (w\<lparr>serial_in := rest\<rparr>) \<Longrightarrow> P te ls w"
  shows "P timeout_end response_lines w"
proof (induction timeout_end response_lines w rule: read_response.induct)
  case (1 te ls w)
  show ?case
  proof (cases "clock w < te")
    case False
    then show ?thesis by (rule assms(1))
  next
    case before: True
    show ?thesis
    proof (cases "serial_in w")
      case Nil
      from before Nil "1.IH"(1) [OF before Nil] show ?thesis by (rule assms(2))
    next
      case (Cons a rest)
      obtain t raw where a: "a = (t, raw)" by (cases a)
      have in_eq: "serial_in w = (t, raw) # rest" using Cons a by simp
      show ?thesis
      proof (cases "t \<le> clock w")
        case False
        from before in_eq False "1.IH"(4) [OF before Cons a [symmetric] False]
        show ?thesis by (rule assms(3))
      next
        case waiting: True
        show ?thesis
        proof (cases raw)
          case None
          with before in_eq waiting show ?thesis by (auto intro: assms(4))
        next
          case (Some s)
          have in_eq': "serial_in w = (t, Some s) # rest" using in_eq Some by simp
          show ?thesis
          proof (cases "strip s = []")
            case True
            have "\<not> strip s \<noteq> []" using True by simp
            from before in_eq' waiting True
              "1.IH"(3) [OF before Cons a [symmetric] waiting Some refl refl this]
            show ?thesis by (rule assms(5))
          next
            case nonblank: False
            show ?thesis
            proof (cases "startswith ''ok'' (strip s) \<or> startswith ''error:'' (strip s)")
              case True
              from before in_eq' waiting nonblank True show ?thesis by (rule assms(6))
            next
              case False
              from before in_eq' waiting nonblank False
                "1.IH"(2) [OF before Cons a [symmetric] waiting Some refl refl nonblank False]
              show ?thesis by (rule assms(7))
            qed
          qed
        qed
      qed
    qed
  qed
qed

text \<open>\<^verbatim>\<open>_send_serial\<close>: refuses when no port is open; writes the command and a newline;
  runs the read loop until \<open>self_timeout\<close> from now; then builds the result.\<close>

definition send_serial :: "RoboarmClient \<Rightarrow> string \<Rightarrow> world \<Rightarrow> error + (CommandResult \<times> world)" where
  "send_serial self command w =
     (case self_serial self of
        None \<Rightarrow> Inl (RuntimeError ''Not connected. Call connect() first.'')
      | Some h \<Rightarrow>
          (let w1 = w\<lparr>serial_out := serial_out w @ [command @ [CHR 0x0A]]\<rparr>;
               timeout_end = clock w1 + self_timeout self
           in case read_response timeout_end [] w1 of
                Inl e \<Rightarrow> Inl e
              | Inr (response_lines, w2) \<Rightarrow>
                  if response_lines = [] then
                    Inr (\<lparr>success = False, message = ''No response from controller''\<rparr>, w2)
                  else
                    (let full_response = join [CHR 0x0A] response_lines
                     in if startswith ''error:'' (last response_lines)
                        then Inr (\<lparr>success = False, message = full_response\<rparr>, w2)
                        else Inr (\<lparr>success = True, message = full_response\<rparr>, w2))))"

text \<open>\<^verbatim>\<open>_send_http\<close>: refuses when no HTTP client is open; posts the command to
  \<open>/api/command\<close> and returns the reply's JSON.\<close>

definition send_http :: "RoboarmClient \<Rightarrow> string \<Rightarrow> world \<Rightarrow> error + (CommandResult \<times> world)" where
  "send_http self command w =
     (case self_http_client self of
        None \<Rightarrow> Inl (RuntimeError ''Not connected. Call connect() first.'')
      | Some h \<Rightarrow>
          (let w1 = w\<lparr>http_requests := http_requests w @
                        [Post (get_default (self_base_url self) [] @ ''/api/command'') command]\<rparr>
           in case api_command w1 of
                [] \<Rightarrow> Inl TransportError
              | None # rest \<Rightarrow> Inl TransportError
              | Some r # rest \<Rightarrow> Inr (r, w1\<lparr>api_command := rest\<rparr>)))"

definition send_command :: "RoboarmClient \<Rightarrow> string \<Rightarrow> world \<Rightarrow> error + (CommandResult \<times> world)" where
  "send_command self command w =
     (if self_mode self = ''serial'' then send_serial self command w
      else send_http self command w)"

section \<open>Status queries\<close>

text \<open>
  \<^verbatim>\<open>int(val)\<close> on text, base ten: white space around the number is dropped, a sign
  may lead, and the digits may be grouped by single underscores. Anything else raises
  \<open>ValueError\<close>. \<open>int_digits\<close> reads the digits, \<open>acc\<close> being the value so far.
\<close>

fun int_digits :: "nat \<Rightarrow> string \<Rightarrow> nat option" where
  "int_digits acc [] = Some acc"
| "int_digits acc (c # cs) =
     (if is_digit c then int_digits (acc * 10 + digit_val c) cs
      else if c = CHR ''_'' then
        (case cs of
           [] \<Rightarrow> None
         | d # ds \<Rightarrow> if is_digit d then int_digits (acc * 10 + digit_val d) ds else None)
      else None)"

definition py_int :: "string \<Rightarrow> error + int" where
  "py_int s =
     (let t = strip s;
          negative = (t \<noteq> [] \<and> hd t = CHR ''-'');
          body = (if t \<noteq> [] \<and> (hd t = CHR ''-'' \<or> hd t = CHR ''+'') then tl t else t)
      in if body \<noteq> [] \<and> is_digit (hd body) then
           (case int_digits 0 body of
              None \<Rightarrow> Inl (ValueError ''invalid literal for int() with base 10'')
            | Some n \<Rightarrow> Inr (if negative then - int n else int n))
         else Inl (ValueError ''invalid literal for int() with base 10''))"

text \<open>
  The loop \<^verbatim>\<open>for i, val in enumerate(pos_values): positions[f"j{i + 1}"] = int(val)\<close>:
  \<open>i\<close> is the index of the first value of the list, \<open>posn\<close> the dictionary so far.
\<close>

fun fill_positions :: "nat \<Rightarrow> string list \<Rightarrow> (string \<rightharpoonup> int) \<Rightarrow> error + (string \<rightharpoonup> int)" where
  "fill_positions i [] posn = Inr posn"
| "fill_positions i (val # vals) posn =
     (case py_int val of
        Inl e \<Rightarrow> Inl e
      | Inr v \<Rightarrow> fill_positions (Suc i) vals (posn(''j'' @ str_of_nat (i + 1) \<mapsto> v)))"

text \<open>
  The serial branch of \<^verbatim>\<open>status\<close> after the exchange: the message is split at white
  space, the first part gives the flags (indexing an empty list raises), and a second
  part that starts with \<open>P:\<close> gives the positions.
\<close>

definition parse_quick_status :: "string \<Rightarrow> error + RoboarmStatus" where
  "parse_quick_status msg =
     (let parts = split_ws msg
      in case parts of
           [] \<Rightarrow> Inl IndexError
         | flags # others \<Rightarrow>
             (case (if length parts > 1 \<and> startswith ''P:'' (parts ! 1)
                    then fill_positions 0 (split_on CHR '','' (drop 2 (parts ! 1))) Map.empty
                    else Inr Map.empty) of
                Inl e \<Rightarrow> Inl e
              | Inr posn \<Rightarrow>
                  Inr \<lparr>enabled = (CHR ''E'' \<in> set flags),
                       moving = (CHR ''M'' \<in> set flags),
                       positions = posn,
                       targets = Map.empty,
                       distances = Map.empty,
                       ip = None,
                       uptime = None\<rparr>))"

definition status :: "RoboarmClient \<Rightarrow> world \<Rightarrow> error + (RoboarmStatus \<times> world)" where
  "status self w =
     (if self_mode self = ''serial'' then
        (case send_command self ''?'' w of
           Inl e \<Rightarrow> Inl e
         | Inr (result, w') \<Rightarrow>
             (case parse_quick_status (message result) of
                Inl e \<Rightarrow> Inl e
              | Inr st \<Rightarrow> Inr (st, w')))
      else
        (case self_http_client self of
           None \<Rightarrow> Inl (RuntimeError ''Not connected. Call connect() first.'')
         | Some h \<Rightarrow>
             (let w1 = w\<lparr>http_requests := http_requests w @
                           [Get (get_default (self_base_url self) [] @ ''/api/status'')]\<rparr>
              in case api_status w1 of
                   [] \<Rightarrow> Inl TransportError
                 | None # rest \<Rightarrow> Inl TransportError
                 | Some data # rest \<Rightarrow> Inr (from_dict data, w1\<lparr>api_status := rest\<rparr>))))"

section \<open>Commands\<close>

definition enable :: "RoboarmClient \<Rightarrow> world \<Rightarrow> error + (CommandResult \<times> world)" where
  "enable self w = send_command self ''M17'' w"

definition disable :: "RoboarmClient \<Rightarrow> world \<Rightarrow> error + (CommandResult \<times> world)" where
  "disable self w = send_command self ''M18'' w"

definition emergency_stop :: "RoboarmClient \<Rightarrow> world \<Rightarrow> error + (CommandResult \<times> world)" where
  "emergency_stop self w = send_command self ''M112'' w"

definition home :: "RoboarmClient \<Rightarrow> world \<Rightarrow> error + (CommandResult \<times> world)" where
  "home self w = send_command self ''G28'' w"

definition get_positions :: "RoboarmClient \<Rightarrow> world \<Rightarrow> error + ((string \<rightharpoonup> int) \<times> world)" where
  "get_positions self w =
     (case status self w of Inl e \<Rightarrow> Inl e | Inr (st, w') \<Rightarrow> Inr (positions st, w'))"

subsection \<open>The command encoder\<close>

text \<open>
  The loop of \<^verbatim>\<open>move\<close>, \<^verbatim>\<open>for i, pos in enumerate(joints, 1)\<close>: \<open>i\<close> is the
  index of the first joint of the list, \<open>cmd\<close> the command built so far.
\<close>

fun move_loop :: "nat \<Rightarrow> int option list \<Rightarrow> string \<Rightarrow> string" where
  "move_loop i [] cmd = cmd"
| "move_loop i (pos # joints) cmd =
     move_loop (Suc i) joints
       (case pos of None \<Rightarrow> cmd
        | Some p \<Rightarrow> cmd @ '' J'' @ str_of_nat i @ '':'' @ str_of_int p)"

definition move_cmd ::
  "int option \<Rightarrow> int option \<Rightarrow> int option \<Rightarrow> int option \<Rightarrow> int option \<Rightarrow> int option \<Rightarrow>
   bool \<Rightarrow> string" where
  "move_cmd j1 j2 j3 j4 j5 j6 relative =
     move_loop 1 [j1, j2, j3, j4, j5, j6] (if relative then ''G1'' else ''G0'')"

definition move ::
  "RoboarmClient \<Rightarrow> int option \<Rightarrow> int option \<Rightarrow> int option \<Rightarrow> int option \<Rightarrow> int option \<Rightarrow>
   int option \<Rightarrow> bool \<Rightarrow> world \<Rightarrow> error + (CommandResult \<times> world)" where
  "move self j1 j2 j3 j4 j5 j6 relative w =
     send_command self (move_cmd j1 j2 j3 j4 j5 j6 relative) w"

section \<open>Waiting for the arm to stop\<close>

text \<open>
  The polling loop ends because a poll that reports a moving arm has read something: a
  serial exchange that captured no line gives the message \<open>No response from controller\<close>,
  which holds no \<open>M\<close>.
\<close>

lemma read_response_consumes:
  "read_response timeout_end ls w = Inr (ls', w') \<Longrightarrow>
     length ls' + length (serial_in w') \<le> length ls + length (serial_in w) \<and>
     api_status w' = api_status w \<and> api_command w' = api_command w \<and>
     serial_out w' = serial_out w \<and> http_requests w' = http_requests w \<and>
     open_handles w' = open_handles w \<and> next_handle w' = next_handle w"
proof (induction timeout_end ls w rule: read_response_cases_induct)
  case (deadline te ls w)
  then show ?case by (simp add: read_response_deadline)
next
  case (nothing te ls w)
  then show ?case by (simp add: read_response_nothing)
next
  case (later te ls w t raw rest)
  then show ?case by (simp add: read_response_later)
next
  case (undecodable te ls w t rest)
  then show ?case by (simp add: read_response_undecodable)
next
  case (blank te ls w t s rest)
  then show ?case by (simp add: read_response_blank)
next
  case (final te ls w t s rest)
  then show ?case by (auto simp add: read_response_final)
next
  case (more te ls w t s rest)
  then show ?case by (simp add: read_response_more)
qed

lemma no_response_not_moving:
  "parse_quick_status ''No response from controller'' =
     Inr \<lparr>enabled = False, moving = False, positions = Map.empty, targets = Map.empty,
          distances = Map.empty, ip = None, uptime = None\<rparr>"
  by (simp add: parse_quick_status_def split_ws_def is_space_def startswith_def)

text \<open>What the controller and the server have still to say: the measure of the polling loop.\<close>

definition input_left :: "world \<Rightarrow> nat" where
  "input_left w = length (serial_in w) + length (api_status w)"

lemma status_moving_consumes:
  assumes "status self w = Inr (st, w')" and "moving st"
  shows "input_left w' < input_left w"
proof (cases "self_mode self = ''serial''")
  case True
  from assms(1) True obtain result where
    sent: "send_serial self ''?'' w = Inr (result, w')" and
    parsed: "parse_quick_status (message result) = Inr st"
    by (auto simp: status_def send_command_def split: sum.splits)
  from sent obtain h where h: "self_serial self = Some h"
    by (auto simp: send_serial_def split: option.splits)
  define w1 where "w1 = w\<lparr>serial_out := serial_out w @ [''?'' @ [CHR 0x0A]]\<rparr>"
  from sent h obtain ls where
    rd: "read_response (clock w1 + self_timeout self) [] w1 = Inr (ls, w')" and
    res: "ls = [] \<longrightarrow> message result = ''No response from controller''"
    by (auto simp: send_serial_def Let_def w1_def split: sum.splits if_splits)
  have "ls \<noteq> []"
  proof
    assume "ls = []"
    with res parsed assms(2) show False by (auto simp add: no_response_not_moving)
  qed
  moreover from read_response_consumes [OF rd]
  have "length ls + length (serial_in w') \<le> length (serial_in w1)" and "api_status w' = api_status w1"
    by simp_all
  ultimately show ?thesis by (cases ls) (simp_all add: input_left_def w1_def)
next
  case False
  with assms(1) show ?thesis
    by (auto simp: status_def input_left_def Let_def split: option.splits list.splits)
qed

lemma sleep_input_left: "sleep d w = Inr w' \<Longrightarrow> input_left w' = input_left w"
  by (auto simp: sleep_def input_left_def split: if_splits)

text \<open>
  The loop of \<^verbatim>\<open>wait_for_idle\<close>. While the clock is before \<open>end_time\<close>: a status
  query; when the arm is not moving the answer is \<open>True\<close>; otherwise the loop sleeps
  \<open>poll_interval\<close> and polls again. Past \<open>end_time\<close> the answer is \<open>False\<close>. An
  exception of the status query or of the sleep leaves the loop.
\<close>

function wait_loop :: "RoboarmClient \<Rightarrow> real \<Rightarrow> real \<Rightarrow> world \<Rightarrow> error + (bool \<times> world)" where
  "wait_loop self end_time poll_interval w =
     (if clock w < end_time then
        (case status self w of
           Inl e \<Rightarrow> Inl e
         | Inr (st, w') \<Rightarrow>
             if \<not> moving st then Inr (True, w')
             else
               (case sleep poll_interval w' of
                  Inl e \<Rightarrow> Inl e
                | Inr w'' \<Rightarrow> wait_loop self end_time poll_interval w''))
      else Inr (False, w))"
  by pat_completeness auto
termination
proof (relation "measure (\<lambda>(self, end_time, poll_interval, w). input_left w)")
  show "wf (measure (\<lambda>(self, end_time, poll_interval, w). input_left w))"
    by simp
next
  fix self :: RoboarmClient and end_time poll_interval :: real and w w' w'' :: world
    and x2 :: "RoboarmStatus \<times> world" and st :: RoboarmStatus
  assume "status self w = Inr x2" and "(st, w') = x2" and "\<not> \<not> moving st"
    and "sleep poll_interval w' = Inr w''"
  then have "input_left w'' < input_left w"
    using status_moving_consumes [of self w st w'] sleep_input_left [of poll_interval w' w'']
    by simp
  then show "((self, end_time, poll_interval, w''), self, end_time, poll_interval, w)
        \<in> measure (\<lambda>(self, end_time, poll_interval, w). input_left w)"
    by simp
qed

declare wait_loop.simps [simp del]

definition wait_for_idle :: "RoboarmClient \<Rightarrow> real \<Rightarrow> real \<Rightarrow> world \<Rightarrow> error + (bool \<times> world)" where
  "wait_for_idle self timeout poll_interval w =
     wait_loop self (clock w + timeout) poll_interval w"

section \<open>Notions the properties are stated with\<close>

text \<open>
  The encoding as the specification words it: the prefix, then for each joint index from
  1 to 6 in ascending order one token \<open>" J{i}:{value}"\<close> when the joint has a target and
  nothing when it has none.
\<close>

definition joint_token :: "nat \<Rightarrow> int \<Rightarrow> string" where
  "joint_token i v = '' J'' @ str_of_nat i @ '':'' @ str_of_int v"

definition spec_move_encoding :: "(nat \<Rightarrow> int option) \<Rightarrow> bool \<Rightarrow> string" where
  "spec_move_encoding target relative =
     (if relative then ''G1'' else ''G0'') @
     concat (map (\<lambda>i. case target i of None \<Rightarrow> [] | Some v \<Rightarrow> joint_token i v) [1 ..< 7])"

text \<open>
  A client connected to a serial port with timeout \<open>t\<close>, a client connected over HTTP,
  and a world at time 0 in which the controller sends the given lines and the status
  endpoint the given replies.
\<close>

definition example_serial_client :: "real \<Rightarrow> RoboarmClient" where
  "example_serial_client t =
     \<lparr>self_url = ''serial:///dev/ttyUSB0'', self_timeout = t, self_baud_rate = 115200,
      self_serial = Some 0, self_http_client = None, self_mode = ''serial'',
      self_serial_port = Some ''/dev/ttyUSB0'', self_base_url = None\<rparr>"

definition example_http_client :: RoboarmClient where
  "example_http_client =
     \<lparr>self_url = ''http://roboarm.local/'', self_timeout = 10, self_baud_rate = 115200,
      self_serial = None, self_http_client = Some 0, self_mode = ''http'',
      self_serial_port = None, self_base_url = Some ''http://roboarm.local''\<rparr>"

definition example_world :: "(real \<times> string option) list \<Rightarrow> status_json option list \<Rightarrow> world" where
  "example_world lines replies =
     \<lparr>clock = 0, serial_in = lines, serial_out = [], api_command = [], api_status = replies,
      http_requests = [], open_handles = {0}, next_handle = 1\<rparr>"

text \<open>
  A line the loop reads and does not keep: it decodes and is empty once stripped. The
  controller is silent until \<open>timeout_end\<close> when every line it sends before that time is
  such a line; a line of a later time is never read, the loop having ended.
\<close>

definition blank_line :: "string option \<Rightarrow> bool" where
  "blank_line raw = (case raw of None \<Rightarrow> False | Some s \<Rightarrow> strip s = [])"

definition silent_until :: "real \<Rightarrow> world \<Rightarrow> bool" where
  "silent_until timeout_end w =
     list_all (\<lambda>(t, raw). t < timeout_end \<longrightarrow> blank_line raw) (serial_in w)"

text \<open>The port after a command has been written to it.\<close>

definition written :: "string \<Rightarrow> world \<Rightarrow> world" where
  "written command w = w\<lparr>serial_out := serial_out w @ [command @ [CHR 0x0A]]\<rparr>"

text \<open>All the controller sends is text: every line decodes.\<close>

definition all_text :: "world \<Rightarrow> bool" where
  "all_text w = list_all (\<lambda>(t, raw). raw \<noteq> None) (serial_in w)"

text \<open>
  What \<^verbatim>\<open>urlparse\<close> answers for the URLs of the examples. For \<open>http://[bad\<close>,
  whose host opens a bracket and never closes it, it raises
  \<open>ValueError("Invalid IPv6 URL")\<close>.
\<close>

definition example_urlparse :: "string \<Rightarrow> error + ParseResult" where
  "example_urlparse url =
     (if url = ''ftp://host'' then Inr \<lparr>scheme = ''ftp'', netloc = ''host'', path = []\<rparr>
      else if url = ''serial:///dev/ttyUSB0''
        then Inr \<lparr>scheme = ''serial'', netloc = [], path = ''/dev/ttyUSB0''\<rparr>
      else if url = ''serial://COM3'' then Inr \<lparr>scheme = ''serial'', netloc = ''COM3'', path = []\<rparr>
      else if url = ''http://roboarm.local/''
        then Inr \<lparr>scheme = ''http'', netloc = ''roboarm.local'', path = ''/''\<rparr>
      else if url = ''http://[bad'' then Inl (ValueError ''Invalid IPv6 URL'')
      else Inl (ValueError ''not an example''))"

text \<open>
  The status queries a world has seen: the \<open>?\<close> commands written to the serial port and
  the \<open>GET\<close> requests made over HTTP.
\<close>

definition is_get :: "request \<Rightarrow> bool" where
  "is_get r = (case r of Get u \<Rightarrow> True | Post u c \<Rightarrow> False)"

definition status_queries :: "world \<Rightarrow> nat" where
  "status_queries w =
     length (filter (\<lambda>s. s = ''?'' @ [CHR 0x0A]) (serial_out w)) +
     length (filter is_get (http_requests w))"

text \<open>
  The polling as the specification words it: a status query, a sleep of the poll
  interval, the next status query, and so on. \<open>poll_start self p w k\<close> is the world in
  which poll number \<open>k\<close> (from 0) starts, \<open>w\<close> being the world of the call: the world
  the poll before it left, after a sleep of \<open>p\<close>.
\<close>

fun poll_start :: "RoboarmClient \<Rightarrow> real \<Rightarrow> world \<Rightarrow> nat \<Rightarrow> error + world" where
  "poll_start self p w 0 = Inr w"
| "poll_start self p w (Suc k) =
     (case poll_start self p w k of
        Inl e \<Rightarrow> Inl e
      | Inr wk \<Rightarrow> (case status self wk of Inl e \<Rightarrow> Inl e | Inr (st, w') \<Rightarrow> sleep p w'))"

text \<open>Poll number \<open>k\<close> starts before \<open>end_time\<close> and observes a moving arm.\<close>

definition poll_moving :: "RoboarmClient \<Rightarrow> real \<Rightarrow> real \<Rightarrow> world \<Rightarrow> nat \<Rightarrow> bool" where
  "poll_moving self p end_time w k =
     (case poll_start self p w k of
        Inl e \<Rightarrow> False
      | Inr wk \<Rightarrow> clock wk < end_time \<and>
                 (case status self wk of Inl e \<Rightarrow> False | Inr (st, w') \<Rightarrow> moving st))"

text \<open>A reply of the status endpoint that says whether the arm is moving.\<close>

definition example_reply :: "bool \<Rightarrow> status_json" where
  "example_reply m =
     \<lparr>json_enabled = Some True, json_moving = Some m, json_positions = None,
      json_targets = None, json_distances = None, json_ip = None, json_uptime = None\<rparr>"

text \<open>The key of joint \<open>k\<close> in the position dictionary: \<^verbatim>\<open>f"j{k}"\<close>.\<close>

definition joint_key :: "nat \<Rightarrow> string" where
  "joint_key k = ''j'' @ str_of_nat k"

text \<open>The dictionary the loop builds from values that are integers written out: value
  number \<open>k\<close> (from 0) goes to joint \<open>k + 1\<close>.\<close>

definition assign_joints :: "nat \<Rightarrow> int list \<Rightarrow> (string \<rightharpoonup> int) \<Rightarrow> (string \<rightharpoonup> int)" where
  "assign_joints i vs posn =
     fold (\<lambda>(k, v) m. m(joint_key (k + 1) \<mapsto> v)) (enumerate i vs) posn"

text \<open>The six joint ids of the arm.\<close>

definition joint_ids :: "string set" where
  "joint_ids = {''j1'', ''j2'', ''j3'', ''j4'', ''j5'', ''j6''}"

text \<open>
  The values the serial branch of \<^verbatim>\<open>status\<close> loops over: the fields of the second
  part of the message when it starts with \<open>P:\<close>, none otherwise.
\<close>

definition pos_values :: "string \<Rightarrow> string list" where
  "pos_values msg =
     (let parts = split_ws msg
      in if length parts > 1 \<and> startswith ''P:'' (parts ! 1)
         then split_on CHR '','' (drop 2 (parts ! 1)) else [])"

section \<open>The encoding of a move\<close>

lemma move_loop_tokens:
  "move_loop i joints cmd =
     cmd @ concat (map (\<lambda>k. case joints ! k of None \<Rightarrow> [] | Some v \<Rightarrow> joint_token (i + k) v)
                       [0 ..< length joints])"
proof (induction joints arbitrary: i cmd)
  case Nil
  show ?case by simp
next
  case (Cons pos joints)
  have shift: "map (\<lambda>k. case (pos # joints) ! k of None \<Rightarrow> [] | Some v \<Rightarrow> joint_token (i + k) v)
                 [Suc 0 ..< Suc (length joints)] =
               map (\<lambda>k. case joints ! k of None \<Rightarrow> [] | Some v \<Rightarrow> joint_token (Suc i + k) v)
                 [0 ..< length joints]"
  proof -
    have "[Suc 0 ..< Suc (length joints)] = map Suc [0 ..< length joints]"
      by (simp only: map_Suc_upt)
    then show ?thesis by (simp add: comp_def del: upt_Suc cong: option.case_cong)
  qed
  have "[0 ..< length (pos # joints)] = 0 # [Suc 0 ..< Suc (length joints)]"
    by (simp add: upt_rec)
  then show ?case
    using Cons.IH [of "Suc i"] shift
    by (cases pos) (simp_all add: joint_token_def del: upt_Suc cong: option.case_cong)
qed

lemma upt_joints: "[0 ..< 6] = [0, 1, 2, 3, 4, 5]" "[Suc 0 ..< 7] = [1, 2, 3, 4, 5, 6]"
  by (simp_all add: upt_rec)

text \<open>
  C1. For every choice of targets for the six joints and either value of the relative
  flag, the command \<^verbatim>\<open>move\<close> builds is \<open>G1\<close> when relative and \<open>G0\<close> otherwise,
  followed by one token \<open>" J{i}:{value}"\<close> for each joint that has a target, in ascending
  order of the joint index counted from 1, and by nothing for a joint that has none; and
  that command is what \<^verbatim>\<open>move\<close> hands to \<^verbatim>\<open>send_command\<close>.
\<close>

theorem move_encoding:
  "move_cmd j1 j2 j3 j4 j5 j6 relative =
     spec_move_encoding (\<lambda>i. [j1, j2, j3, j4, j5, j6] ! (i - 1)) relative \<and>
   move self j1 j2 j3 j4 j5 j6 relative w =
     send_command self (spec_move_encoding (\<lambda>i. [j1, j2, j3, j4, j5, j6] ! (i - 1)) relative) w"
proof -
  have "move_cmd j1 j2 j3 j4 j5 j6 relative =
     spec_move_encoding (\<lambda>i. [j1, j2, j3, j4, j5, j6] ! (i - 1)) relative"
    unfolding move_cmd_def spec_move_encoding_def move_loop_tokens
    by (simp add: upt_joints eval_nat_numeral cong: option.case_cong)
  then show ?thesis by (simp add: move_def)
qed

theorem move_encoding_witness:
  "move_cmd (Some 1000) None (Some (- 500)) None None (Some 7) False = ''G0 J1:1000 J3:-500 J6:7'' \<and>
   move_cmd None (Some 0) None None (Some 12) None True = ''G1 J2:0 J5:12''"
  using move_encoding [of "Some 1000" None "Some (- 500)" None None "Some 7" False]
    move_encoding [of None "Some 0" None None "Some 12" None True]
  by (simp add: spec_move_encoding_def joint_token_def str_of_int_def str_of_nat.simps
      digit_char_def upt_joints)

section \<open>The serial exchange: what it returns\<close>

lemma read_response_silent:
  "silent_until timeout_end w \<Longrightarrow> \<exists>w'. read_response timeout_end ls w = Inr (ls, w')"
proof (induction timeout_end ls w rule: read_response_cases_induct)
  case (deadline te ls w)
  then show ?case by (simp add: read_response_deadline)
next
  case (nothing te ls w)
  then show ?case by (simp add: read_response_nothing silent_until_def)
next
  case (later te ls w t raw rest)
  then show ?case by (simp add: read_response_later silent_until_def)
next
  case (undecodable te ls w t rest)
  then show ?case by (simp add: silent_until_def blank_line_def)
next
  case (blank te ls w t s rest)
  then show ?case by (simp add: read_response_blank silent_until_def)
next
  case (final te ls w t s rest)
  then show ?case by (simp add: silent_until_def blank_line_def)
next
  case (more te ls w t s rest)
  then show ?case by (simp add: silent_until_def blank_line_def)
qed

lemma send_serial_silent:
  assumes "self_serial self = Some h" and "silent_until (clock w + self_timeout self) w"
  shows "\<exists>w'. send_serial self command w =
           Inr (\<lparr>success = False, message = ''No response from controller''\<rparr>, w')"
proof -
  define w1 where "w1 = w\<lparr>serial_out := serial_out w @ [command @ [CHR 0x0A]]\<rparr>"
  have "silent_until (clock w1 + self_timeout self) w1"
    using assms(2) by (simp add: w1_def silent_until_def)
  then obtain w' where "read_response (clock w1 + self_timeout self) [] w1 = Inr ([], w')"
    using read_response_silent by blast
  then show ?thesis
    using assms(1) by (auto simp: send_serial_def Let_def w1_def)
qed

text \<open>
  C3, as the code has it. On a connected serial client, when the controller is silent
  until the timeout (it sends nothing, or only lines that are empty once stripped),
  \<^verbatim>\<open>send_command\<close> returns the failed result with the message
  \<open>No response from controller\<close> and raises nothing.
\<close>

theorem no_response_when_silent:
  assumes "self_mode self = ''serial''" and "self_serial self = Some h"
    and "silent_until (clock w + self_timeout self) w"
  shows "\<exists>w'. send_command self command w =
           Inr (\<lparr>success = False, message = ''No response from controller''\<rparr>, w')"
  using send_serial_silent [OF assms(2,3)] assms(1) by (simp add: send_command_def)

theorem no_response_when_silent_witness:
  "send_command (example_serial_client 0.02) ''M17''
     (example_world [(0, Some [CHR 0x0D, CHR 0x0A]), (5, Some ''ok'')] []) =
   Inr (\<lparr>success = False, message = ''No response from controller''\<rparr>,
        \<lparr>clock = 0.02, serial_in = [(5, Some ''ok'')], serial_out = [''M17'' @ [CHR 0x0A]],
         api_command = [], api_status = [], http_requests = [], open_handles = {0},
         next_handle = 1\<rparr>)"
proof -
  have "\<exists>w'. send_command (example_serial_client 0.02) ''M17''
     (example_world [(0, Some [CHR 0x0D, CHR 0x0A]), (5, Some ''ok'')] []) =
           Inr (\<lparr>success = False, message = ''No response from controller''\<rparr>, w')"
    by (rule no_response_when_silent [where h = 0])
      (simp_all add: example_serial_client_def example_world_def silent_until_def
        blank_line_def strip_def is_space_def)
  then show ?thesis
  by (simp add: send_command_def send_serial_def example_serial_client_def example_world_def
     read_response.simps strip_def is_space_def startswith_def Let_def)
qed

text \<open>
  The claim as worded also covers an exchange that receives lines none of which starts
  with \<open>ok\<close> or \<open>error:\<close>. There the loop keeps the lines, runs to the timeout, and
  the result is a success that carries them: the controller answers \<open>busy\<close> and nothing
  more, and the result is \<open>{success: true, message: "busy"}\<close>.
\<close>

theorem no_terminator_counterexample:
  "\<not> startswith ''ok'' ''busy'' \<and> \<not> startswith ''error:'' ''busy'' \<and>
   send_command (example_serial_client 0.02) ''M17'' (example_world [(0, Some ''busy'')] []) =
     Inr (\<lparr>success = True, message = ''busy''\<rparr>,
          \<lparr>clock = 0.02, serial_in = [], serial_out = [''M17'' @ [CHR 0x0A]],
           api_command = [], api_status = [], http_requests = [], open_handles = {0},
           next_handle = 1\<rparr>)"
  by (simp add: send_command_def send_serial_def example_serial_client_def example_world_def
     read_response.simps strip_def is_space_def startswith_def Let_def)

lemma send_serial_captured:
  assumes "self_serial self = Some h"
    and "read_response (clock w + self_timeout self) [] (written command w) = Inr (ls, w')"
    and "ls \<noteq> []"
  shows "send_serial self command w =
           Inr (\<lparr>success = \<not> startswith ''error:'' (last ls),
                 message = join [CHR 0x0A] ls\<rparr>, w')"
  using assms by (simp add: send_serial_def written_def Let_def)

lemma join_ends_with_last:
  "ls \<noteq> [] \<Longrightarrow> \<exists>before. join sep ls = before @ last ls"
proof (induction ls)
  case Nil
  then show ?case by simp
next
  case (Cons x xs)
  show ?case
  proof (cases xs)
    case Nil
    then show ?thesis by simp
  next
    case (Cons y ys)
    with Cons.IH obtain before where "join sep xs = before @ last xs" by auto
    with Cons have "join sep (x # xs) = (x @ sep @ before) @ last (x # xs)" by simp
    then show ?thesis by blast
  qed
qed

lemma read_response_text:
  "all_text w \<Longrightarrow> \<exists>ls' w'. read_response timeout_end ls w = Inr (ls', w')"
proof (induction timeout_end ls w rule: read_response_cases_induct)
  case (deadline te ls w)
  then show ?case by (simp add: read_response_deadline)
next
  case (nothing te ls w)
  then show ?case by (simp add: read_response_nothing all_text_def)
next
  case (later te ls w t raw rest)
  then show ?case by (simp add: read_response_later all_text_def)
next
  case (undecodable te ls w t rest)
  then show ?case by (simp add: all_text_def)
next
  case (blank te ls w t s rest)
  then show ?case by (simp add: read_response_blank all_text_def)
next
  case (final te ls w t s rest)
  then show ?case by (simp add: read_response_final)
next
  case (more te ls w t s rest)
  then show ?case by (simp add: read_response_more all_text_def)
qed

lemma send_serial_text:
  assumes "self_serial self = Some h" and "all_text w"
  shows "\<exists>r w'. send_serial self command w = Inr (r, w')"
proof -
  have "all_text (written command w)"
    using assms(2) by (simp add: all_text_def written_def)
  then obtain ls w' where
    "read_response (clock w + self_timeout self) [] (written command w) = Inr (ls, w')"
    using read_response_text by blast
  then show ?thesis
    using assms(1) by (auto simp: send_serial_def written_def Let_def)
qed

text \<open>
  C5. On a connected serial client, when the read loop of an exchange captures at least
  one line, the result carries the captured lines joined by newlines as its message, and
  it is a success unless the last captured line starts with \<open>error:\<close>, when it is a
  failure: the controller's error text, the last line, ends the message of the result.
  Nothing is raised: when all the controller sends is text, the exchange returns a
  result.
\<close>

theorem serial_result_of_captured_lines:
  assumes "self_mode self = ''serial''" and "self_serial self = Some h"
  shows "(read_response (clock w + self_timeout self) [] (written command w) = Inr (ls, w') \<and>
          ls \<noteq> [] \<longrightarrow>
            send_command self command w =
              Inr (\<lparr>success = \<not> startswith ''error:'' (last ls),
                    message = join [CHR 0x0A] ls\<rparr>, w') \<and>
            (\<exists>before. join [CHR 0x0A] ls = before @ last ls)) \<and>
         (all_text w \<longrightarrow> (\<exists>r w''. send_command self command w = Inr (r, w'')))"
  using send_serial_captured [OF assms(2), of w command ls w']
    send_serial_text [OF assms(2), of w command] join_ends_with_last [of ls "[CHR 0x0A]"] assms(1)
  by (simp add: send_command_def)

theorem serial_result_of_captured_lines_witness:
  "send_command (example_serial_client 1) ''G0 J1:99999''
     (example_world [(0, Some ''busy''), (0, Some (''error: limit'' @ [CHR 0x0D, CHR 0x0A]))] []) =
   Inr (\<lparr>success = False, message = ''busy'' @ [CHR 0x0A] @ ''error: limit''\<rparr>,
        \<lparr>clock = 0, serial_in = [], serial_out = [''G0 J1:99999'' @ [CHR 0x0A]],
         api_command = [], api_status = [], http_requests = [], open_handles = {0},
         next_handle = 1\<rparr>)"
proof -
  let ?w = "example_world [(0, Some ''busy''), (0, Some (''error: limit'' @ [CHR 0x0D, CHR 0x0A]))] []"
  let ?w' = "\<lparr>clock = 0, serial_in = [], serial_out = [''G0 J1:99999'' @ [CHR 0x0A]],
         api_command = [], api_status = [], http_requests = [], open_handles = {0},
         next_handle = 1\<rparr>"
  have mode: "self_mode (example_serial_client 1) = ''serial''"
    and port: "self_serial (example_serial_client 1) = Some 0"
    by (simp_all add: example_serial_client_def)
  have rd: "read_response (clock ?w + self_timeout (example_serial_client 1)) []
              (written ''G0 J1:99999'' ?w) = Inr ([''busy'', ''error: limit''], ?w')"
    by (simp add: example_serial_client_def example_world_def written_def read_response.simps
        strip_def is_space_def startswith_def Let_def)
  show ?thesis
    using serial_result_of_captured_lines [OF mode port, of ?w "''G0 J1:99999''"
        "[''busy'', ''error: limit'']" ?w'] rd
    by (simp add: startswith_def)
qed

section \<open>The polling loop, one equation for each way through its body\<close>

lemma wait_loop_idle:
  "clock w < end_time \<Longrightarrow> status self w = Inr (st, w') \<Longrightarrow> \<not> moving st \<Longrightarrow>
   wait_loop self end_time poll_interval w = Inr (True, w')"
  by (simp add: wait_loop.simps [of self end_time poll_interval w])

lemma wait_loop_deadline:
  "\<not> clock w < end_time \<Longrightarrow> wait_loop self end_time poll_interval w = Inr (False, w)"
  by (simp add: wait_loop.simps [of self end_time poll_interval w])

lemma wait_loop_moving:
  "clock w < end_time \<Longrightarrow> status self w = Inr (st, w') \<Longrightarrow> moving st \<Longrightarrow>
   sleep poll_interval w' = Inr w'' \<Longrightarrow>
   wait_loop self end_time poll_interval w = wait_loop self end_time poll_interval w''"
  by (simp add: wait_loop.simps [of self end_time poll_interval w])

lemma wait_loop_status_error:
  "clock w < end_time \<Longrightarrow> status self w = Inl e \<Longrightarrow>
   wait_loop self end_time poll_interval w = Inl e"
  by (simp add: wait_loop.simps [of self end_time poll_interval w])

section \<open>A status query that nobody answers\<close>

text \<open>
  C9. On a connected serial client, when the controller is silent until the timeout of
  the status query, \<^verbatim>\<open>status\<close> raises nothing and reports no error: it reads the
  message \<open>No response from controller\<close> as a status line and returns a status that is
  not enabled and not moving, with no positions, targets or distances. So
  \<^verbatim>\<open>wait_for_idle\<close> with a positive timeout answers \<open>True\<close> at its first poll.
\<close>

theorem status_of_silent_controller:
  assumes "self_mode self = ''serial''" and "self_serial self = Some h"
    and "silent_until (clock w + self_timeout self) w"
  shows "\<exists>w'. status self w =
             Inr (\<lparr>enabled = False, moving = False, positions = Map.empty,
                   targets = Map.empty, distances = Map.empty, ip = None, uptime = None\<rparr>, w') \<and>
           (0 < timeout \<longrightarrow> wait_for_idle self timeout poll_interval w = Inr (True, w'))"
proof -
  from send_serial_silent [OF assms(2,3)] obtain w' where
    sent: "send_serial self ''?'' w =
             Inr (\<lparr>success = False, message = ''No response from controller''\<rparr>, w')"
    by blast
  have st: "status self w =
             Inr (\<lparr>enabled = False, moving = False, positions = Map.empty,
                   targets = Map.empty, distances = Map.empty, ip = None, uptime = None\<rparr>, w')"
    using sent assms(1) by (simp add: status_def send_command_def no_response_not_moving)
  have "wait_for_idle self timeout poll_interval w = Inr (True, w')" if "0 < timeout"
    unfolding wait_for_idle_def
    by (rule wait_loop_idle [OF _ st]) (use that in simp_all)
  with st show ?thesis by blast
qed

theorem status_of_silent_controller_witness:
  "status (example_serial_client 0.02) (example_world [] []) =
     Inr (\<lparr>enabled = False, moving = False, positions = Map.empty,
           targets = Map.empty, distances = Map.empty, ip = None, uptime = None\<rparr>,
          \<lparr>clock = 0.02, serial_in = [], serial_out = [''?'' @ [CHR 0x0A]],
           api_command = [], api_status = [], http_requests = [], open_handles = {0},
           next_handle = 1\<rparr>) \<and>
   wait_for_idle (example_serial_client 0.02) 60 0.1 (example_world [] []) =
     Inr (True,
          \<lparr>clock = 0.02, serial_in = [], serial_out = [''?'' @ [CHR 0x0A]],
           api_command = [], api_status = [], http_requests = [], open_handles = {0},
           next_handle = 1\<rparr>)"
proof -
  have mode: "self_mode (example_serial_client 0.02) = ''serial''"
    and port: "self_serial (example_serial_client 0.02) = Some 0"
    by (simp_all add: example_serial_client_def)
  have quiet: "silent_until (clock (example_world [] []) + self_timeout (example_serial_client 0.02))
                 (example_world [] [])"
    by (simp add: silent_until_def example_world_def)
  have run: "send_command (example_serial_client 0.02) ''?'' (example_world [] []) =
     Inr (\<lparr>success = False, message = ''No response from controller''\<rparr>,
          \<lparr>clock = 0.02, serial_in = [], serial_out = [''?'' @ [CHR 0x0A]],
           api_command = [], api_status = [], http_requests = [], open_handles = {0},
           next_handle = 1\<rparr>)"
    by (simp add: send_command_def send_serial_def example_serial_client_def example_world_def
        read_response.simps Let_def)
  from status_of_silent_controller [OF mode port quiet, of 60 "0.1"] run mode
  show ?thesis
    by (auto simp add: status_def no_response_not_moving)
qed

section \<open>A move with no joint\<close>

lemma send_command_serial_out:
  assumes "self_mode self = ''serial''" and "send_command self command w = Inr (r, w')"
  shows "serial_out w' = serial_out w @ [command @ [CHR 0x0A]]"
proof -
  from assms have sent: "send_serial self command w = Inr (r, w')"
    by (simp add: send_command_def)
  then obtain ls where
    "read_response (clock w + self_timeout self) [] (written command w) = Inr (ls, w')"
    by (auto simp: send_serial_def written_def Let_def split: option.splits sum.splits if_splits)
  from read_response_consumes [OF this] show ?thesis by (simp add: written_def)
qed

lemma send_command_http_requests:
  assumes "self_mode self \<noteq> ''serial''" and "send_command self command w = Inr (r, w')"
  shows "http_requests w' =
           http_requests w @ [Post (get_default (self_base_url self) [] @ ''/api/command'') command]"
  using assms
  by (auto simp: send_command_def send_http_def Let_def split: option.splits list.splits)

lemma send_http_posts:
  assumes "self_http_client self = Some h" and "api_command w = Some reply # rest"
  shows "send_http self command w =
           Inr (reply,
                w\<lparr>http_requests := http_requests w @
                     [Post (get_default (self_base_url self) [] @ ''/api/command'') command],
                   api_command := rest\<rparr>)"
  using assms by (simp add: send_http_def Let_def)

lemma send_serial_writes:
  assumes "self_serial self = Some h" and "all_text w"
  shows "\<exists>r w'. send_serial self command w = Inr (r, w') \<and>
                serial_out w' = serial_out w @ [command @ [CHR 0x0A]]"
proof -
  from send_serial_text [OF assms] obtain r w' where
    sent: "send_serial self command w = Inr (r, w')"
    by blast
  then obtain ls where
    "read_response (clock w + self_timeout self) [] (written command w) = Inr (ls, w')"
    by (auto simp: send_serial_def written_def Let_def split: option.splits sum.splits if_splits)
  from read_response_consumes [OF this] have "serial_out w' = serial_out w @ [command @ [CHR 0x0A]]"
    by (simp add: written_def)
  with sent show ?thesis by blast
qed

text \<open>
  C10. \<^verbatim>\<open>move\<close> with no joint given checks nothing itself: it is
  \<^verbatim>\<open>send_command\<close> of the bare command \<open>G0\<close>, or \<open>G1\<close> when relative, with no joint
  token. On a connected serial client whose controller sends text, the exchange returns
  and that command, with its newline, is what it wrote to the port. On a connected HTTP
  client whose server answers, that command is what it posted to the command endpoint,
  and the server's answer is the result. Whenever the call returns at all, the command
  is what was written or posted.
\<close>

theorem move_without_joints:
  "move self None None None None None None relative w =
     send_command self (if relative then ''G1'' else ''G0'') w \<and>
   (self_mode self = ''serial'' \<and> self_serial self = Some h \<and> all_text w \<longrightarrow>
      (\<exists>r' w''. move self None None None None None None relative w = Inr (r', w'') \<and>
         serial_out w'' = serial_out w @ [(if relative then ''G1'' else ''G0'') @ [CHR 0x0A]])) \<and>
   (self_mode self \<noteq> ''serial'' \<and> self_http_client self = Some h \<and>
    api_command w = Some reply # rest \<longrightarrow>
      move self None None None None None None relative w =
        Inr (reply,
             w\<lparr>http_requests := http_requests w @
                  [Post (get_default (self_base_url self) [] @ ''/api/command'')
                     (if relative then ''G1'' else ''G0'')],
                api_command := rest\<rparr>)) \<and>
   (self_mode self = ''serial'' \<and>
    move self None None None None None None relative w = Inr (r, w') \<longrightarrow>
      serial_out w' = serial_out w @ [(if relative then ''G1'' else ''G0'') @ [CHR 0x0A]]) \<and>
   (self_mode self \<noteq> ''serial'' \<and>
    move self None None None None None None relative w = Inr (r, w') \<longrightarrow>
      http_requests w' = http_requests w @
        [Post (get_default (self_base_url self) [] @ ''/api/command'')
           (if relative then ''G1'' else ''G0'')])"
proof -
  let ?cmd = "if relative then ''G1'' else ''G0''"
  have eq: "move self None None None None None None relative w = send_command self ?cmd w"
    by (simp add: move_def move_cmd_def)
  have serial: "\<exists>r' w''. send_command self ?cmd w = Inr (r', w'') \<and>
                  serial_out w'' = serial_out w @ [?cmd @ [CHR 0x0A]]"
    if "self_mode self = ''serial''" and "self_serial self = Some h" and "all_text w"
    using send_serial_writes [OF that(2,3), of ?cmd] that(1) by (simp add: send_command_def)
  have http: "send_command self ?cmd w =
        Inr (reply,
             w\<lparr>http_requests := http_requests w @
                  [Post (get_default (self_base_url self) [] @ ''/api/command'') ?cmd],
                api_command := rest\<rparr>)"
    if "self_mode self \<noteq> ''serial''" and "self_http_client self = Some h"
      and "api_command w = Some reply # rest"
    using send_http_posts [OF that(2,3), of ?cmd] that(1) by (simp add: send_command_def)
  show ?thesis
    unfolding eq
    using serial http send_command_serial_out [of self ?cmd w r w']
      send_command_http_requests [of self ?cmd w r w']
    by blast
qed

theorem move_without_joints_witness:
  "move (example_serial_client 1) None None None None None None False
     (example_world [(0, Some ''ok'')] []) =
   Inr (\<lparr>success = True, message = ''ok''\<rparr>,
        \<lparr>clock = 0, serial_in = [], serial_out = [''G0'' @ [CHR 0x0A]],
         api_command = [], api_status = [], http_requests = [], open_handles = {0},
         next_handle = 1\<rparr>) \<and>
   move example_http_client None None None None None None True
     (example_world [] [] \<lparr>api_command := [Some \<lparr>success = True, message = ''ok''\<rparr>]\<rparr>) =
   Inr (\<lparr>success = True, message = ''ok''\<rparr>,
        \<lparr>clock = 0, serial_in = [], serial_out = [], api_command = [], api_status = [],
         http_requests = [Post ''http://roboarm.local/api/command'' ''G1''],
         open_handles = {0}, next_handle = 1\<rparr>)"
proof -
  let ?w = "example_world [] [] \<lparr>api_command := [Some \<lparr>success = True, message = ''ok''\<rparr>]\<rparr>"
  have mode: "self_mode example_http_client \<noteq> ''serial''"
    and client: "self_http_client example_http_client = Some 0"
    and reply: "api_command ?w = Some \<lparr>success = True, message = ''ok''\<rparr> # []"
    by (simp_all add: example_http_client_def example_world_def)
  from move_without_joints [of example_http_client True ?w 0
      "\<lparr>success = True, message = ''ok''\<rparr>" "[]"] mode client reply
  have posted: "move example_http_client None None None None None None True ?w =
        Inr (\<lparr>success = True, message = ''ok''\<rparr>,
             ?w\<lparr>http_requests := http_requests ?w @
                  [Post (get_default (self_base_url example_http_client) [] @ ''/api/command'')
                     (if True then ''G1'' else ''G0'')],
                api_command := []\<rparr>)"
    by blast
  have wrote: "move (example_serial_client 1) None None None None None None False
     (example_world [(0, Some ''ok'')] []) =
   Inr (\<lparr>success = True, message = ''ok''\<rparr>,
        \<lparr>clock = 0, serial_in = [], serial_out = [''G0'' @ [CHR 0x0A]],
         api_command = [], api_status = [], http_requests = [], open_handles = {0},
         next_handle = 1\<rparr>)"
    using move_without_joints [of "example_serial_client 1" False "example_world [(0, Some ''ok'')] []"]
    by (simp add: send_command_def send_serial_def example_serial_client_def example_world_def
        read_response.simps strip_def is_space_def startswith_def Let_def)
  from posted wrote show ?thesis
    by (simp add: example_http_client_def example_world_def get_default_def)
qed

section \<open>Construction\<close>

text \<open>
  C7, as the code has it. The constructor first parses the URL, and an exception of
  \<^verbatim>\<open>urlparse\<close> leaves it as it is. For a URL that parses, the scheme is the one
  \<^verbatim>\<open>urlparse\<close> reports: when it is none of \<open>serial\<close>, \<open>http\<close> and \<open>https\<close>, the
  constructor raises \<open>ValueError\<close>, the exception the specification calls a
  configuration error; when it is one of them, the constructor returns a client of the
  matching mode that has no transport open. The constructor has no access to the world,
  so nothing is connected in any of the three cases.
\<close>

theorem init_checks_scheme:
  "(\<forall>e. urlparse url = Inl e \<longrightarrow>
        RoboarmClient_init urlparse url timeout baud_rate = Inl e) \<and>
   (\<forall>parsed. urlparse url = Inr parsed \<longrightarrow>
      (scheme parsed \<notin> {''serial'', ''http'', ''https''} \<longrightarrow>
         RoboarmClient_init urlparse url timeout baud_rate =
           Inl (ValueError (''Unsupported URL scheme: '' @ scheme parsed))) \<and>
      (scheme parsed \<in> {''serial'', ''http'', ''https''} \<longrightarrow>
         (\<exists>self. RoboarmClient_init urlparse url timeout baud_rate = Inr self \<and>
                 self_serial self = None \<and> self_http_client self = None \<and>
                 self_url self = url \<and> self_timeout self = timeout \<and>
                 self_baud_rate self = baud_rate \<and>
                 self_mode self = (if scheme parsed = ''serial'' then ''serial'' else ''http''))))"
  by (auto simp: RoboarmClient_init_def)

theorem init_checks_scheme_witness:
  "RoboarmClient_init example_urlparse ''ftp://host'' 10 115200 =
     Inl (ValueError ''Unsupported URL scheme: ftp'') \<and>
   RoboarmClient_init example_urlparse ''serial:///dev/ttyUSB0'' 10 115200 =
     Inr \<lparr>self_url = ''serial:///dev/ttyUSB0'', self_timeout = 10, self_baud_rate = 115200,
          self_serial = None, self_http_client = None, self_mode = ''serial'',
          self_serial_port = Some ''/dev/ttyUSB0'', self_base_url = None\<rparr> \<and>
   RoboarmClient_init example_urlparse ''http://roboarm.local/'' 10 115200 =
     Inr \<lparr>self_url = ''http://roboarm.local/'', self_timeout = 10, self_baud_rate = 115200,
          self_serial = None, self_http_client = None, self_mode = ''http'',
          self_serial_port = None, self_base_url = Some ''http://roboarm.local''\<rparr>"
proof -
  have ftp: "example_urlparse ''ftp://host'' = Inr \<lparr>scheme = ''ftp'', netloc = ''host'', path = []\<rparr>"
    by (simp add: example_urlparse_def)
  have unsupported: "scheme \<lparr>scheme = ''ftp'', netloc = ''host'', path = []\<rparr> \<notin>
                       {''serial'', ''http'', ''https''}"
    by simp
  from init_checks_scheme [where urlparse = example_urlparse and url = "''ftp://host''"
      and timeout = 10 and baud_rate = 115200] ftp unsupported
  have "RoboarmClient_init example_urlparse ''ftp://host'' 10 115200 =
     Inl (ValueError (''Unsupported URL scheme: '' @
            scheme \<lparr>scheme = ''ftp'', netloc = ''host'', path = []\<rparr>))"
    by blast
  then show ?thesis
    by (simp add: RoboarmClient_init_def example_urlparse_def rstrip_slash_def)
qed

text \<open>
  The claim as worded promises a client for every URL of one of the three schemes. The
  URL \<open>http://[bad\<close> starts with the scheme \<open>http\<close>, and constructing a client
  with it raises: \<^verbatim>\<open>urlparse\<close> refuses the host, and the constructor has no handler.
\<close>

theorem malformed_url_counterexample:
  "startswith ''http://'' ''http://[bad'' \<and>
   RoboarmClient_init example_urlparse ''http://[bad'' 10 115200 =
     Inl (ValueError ''Invalid IPv6 URL'')"
  by (simp add: startswith_def RoboarmClient_init_def example_urlparse_def)

section \<open>Disconnecting\<close>

text \<open>
  C8. \<^verbatim>\<open>disconnect\<close> is idempotent: from every client and world, disconnecting a
  second time changes nothing more. On a client with no open transport it raises nothing
  and leaves client and world as they are. After it the client holds no transport.
  \<^verbatim>\<open>__exit__\<close> does the same.
\<close>

theorem disconnect_idempotent:
  "disconnect (fst (disconnect self w)) (snd (disconnect self w)) = disconnect self w \<and>
   (self_serial self = None \<and> self_http_client self = None \<longrightarrow> disconnect self w = (self, w)) \<and>
   self_serial (fst (disconnect self w)) = None \<and>
   self_http_client (fst (disconnect self w)) = None \<and>
   exit_client self w = disconnect self w"
  by (auto simp: disconnect_def exit_client_def split: option.splits)

theorem disconnect_idempotent_witness:
  "disconnect (example_serial_client 1) (example_world [] []) =
     (example_serial_client 1 \<lparr>self_serial := None\<rparr>, example_world [] [] \<lparr>open_handles := {}\<rparr>) \<and>
   disconnect (example_serial_client 1 \<lparr>self_serial := None\<rparr>)
       (example_world [] [] \<lparr>open_handles := {}\<rparr>) =
     (example_serial_client 1 \<lparr>self_serial := None\<rparr>, example_world [] [] \<lparr>open_handles := {}\<rparr>)"
proof -
  have once: "disconnect (example_serial_client 1) (example_world [] []) =
     (example_serial_client 1 \<lparr>self_serial := None\<rparr>, example_world [] [] \<lparr>open_handles := {}\<rparr>)"
    by (simp add: disconnect_def example_serial_client_def example_world_def)
  from disconnect_idempotent [of "example_serial_client 1" "example_world [] []"]
  show ?thesis by (simp add: once)
qed

section \<open>Waiting for idle: the polls\<close>

lemma status_serial_world:
  assumes "self_mode self = ''serial''" and "status self w = Inr (st, w')"
  shows "serial_out w' = serial_out w @ [''?'' @ [CHR 0x0A]] \<and> http_requests w' = http_requests w"
proof -
  from assms obtain r where sent: "send_command self ''?'' w = Inr (r, w')"
    by (auto simp: status_def split: sum.splits)
  then have "send_serial self ''?'' w = Inr (r, w')"
    using assms(1) by (simp add: send_command_def)
  then obtain ls where
    "read_response (clock w + self_timeout self) [] (written ''?'' w) = Inr (ls, w')"
    by (auto simp: send_serial_def written_def Let_def split: option.splits sum.splits if_splits)
  from read_response_consumes [OF this] show ?thesis by (simp add: written_def)
qed

lemma status_http_world:
  assumes "self_mode self \<noteq> ''serial''" and "status self w = Inr (st, w')"
  shows "serial_out w' = serial_out w \<and>
         http_requests w' =
           http_requests w @ [Get (get_default (self_base_url self) [] @ ''/api/status'')]"
  using assms by (auto simp: status_def Let_def split: option.splits list.splits)

lemma status_counts:
  assumes "status self w = Inr (st, w')"
  shows "status_queries w' = Suc (status_queries w)"
proof (cases "self_mode self = ''serial''")
  case True
  from status_serial_world [OF True assms] show ?thesis by (simp add: status_queries_def)
next
  case False
  from status_http_world [OF False assms] show ?thesis
    by (simp add: status_queries_def is_get_def)
qed

lemma sleep_counts: "sleep d w = Inr w' \<Longrightarrow> status_queries w' = status_queries w"
  by (auto simp: sleep_def status_queries_def split: if_splits)

lemma wait_loop_after_moving_polls:
  assumes "\<forall>k<n. poll_moving self p end_time w k" and "poll_start self p w n = Inr wn"
  shows "wait_loop self end_time p w = wait_loop self end_time p wn \<and>
         status_queries wn = status_queries w + n"
  using assms
proof (induction n arbitrary: wn)
  case 0
  then show ?case by simp
next
  case (Suc n)
  from Suc.prems(1) have before: "\<forall>k<n. poll_moving self p end_time w k"
    and this_one: "poll_moving self p end_time w n"
    by simp_all
  from this_one obtain wk st w' where
    start: "poll_start self p w n = Inr wk" and early: "clock wk < end_time" and
    st: "status self wk = Inr (st, w')" and mv: "moving st"
    by (auto simp: poll_moving_def split: sum.splits)
  from Suc.prems(2) start st have slept: "sleep p w' = Inr wn" by simp
  from Suc.IH [OF before start]
  have "wait_loop self end_time p w = wait_loop self end_time p wk"
    and "status_queries wk = status_queries w + n"
    by simp_all
  moreover have "wait_loop self end_time p wk = wait_loop self end_time p wn"
    by (rule wait_loop_moving [OF early st mv slept])
  moreover have "status_queries wn = Suc (status_queries wk)"
    using status_counts [OF st] sleep_counts [OF slept] by simp
  ultimately show ?case by simp
qed

text \<open>
  C6. \<^verbatim>\<open>wait_for_idle\<close> polls the status, sleeping the poll interval between one poll
  and the next. When the first \<open>n\<close> polls each start before the deadline and observe a
  moving arm, then: if the next poll would start at or past the deadline, the answer is
  \<open>False\<close> after \<open>n\<close> status queries; if it starts before the deadline and observes an
  arm that is not moving, the answer is \<open>True\<close> at once, after \<open>n + 1\<close> status queries.
  With \<open>n = 2\<close>: moving, moving, not moving gives \<open>True\<close> after exactly three queries.
\<close>

theorem wait_for_idle_polls:
  assumes "\<forall>k<n. poll_moving self poll_interval (clock w + timeout) w k"
    and "poll_start self poll_interval w n = Inr wn"
  shows "(\<not> clock wn < clock w + timeout \<longrightarrow>
            wait_for_idle self timeout poll_interval w = Inr (False, wn) \<and>
            status_queries wn = status_queries w + n) \<and>
         (\<forall>st w'. clock wn < clock w + timeout \<and> status self wn = Inr (st, w') \<and> \<not> moving st \<longrightarrow>
            wait_for_idle self timeout poll_interval w = Inr (True, w') \<and>
            status_queries w' = status_queries w + n + 1)"
proof -
  from wait_loop_after_moving_polls [OF assms]
  have loop: "wait_for_idle self timeout poll_interval w =
                wait_loop self (clock w + timeout) poll_interval wn"
    and count: "status_queries wn = status_queries w + n"
    by (simp_all add: wait_for_idle_def)
  show ?thesis
    using loop count
    by (auto simp: wait_loop_deadline wait_loop_idle dest: status_counts)
qed

lemmas example_http_eval =
  status_def from_dict_def get_default_def example_http_client_def example_world_def
  example_reply_def sleep_def Let_def

theorem wait_for_idle_polls_witness:
  "wait_for_idle example_http_client 60 0.1
     (example_world [] [Some (example_reply True), Some (example_reply True),
                        Some (example_reply False)]) =
   Inr (True,
        \<lparr>clock = 0.2, serial_in = [], serial_out = [], api_command = [], api_status = [],
         http_requests = [Get ''http://roboarm.local/api/status'',
                          Get ''http://roboarm.local/api/status'',
                          Get ''http://roboarm.local/api/status''],
         open_handles = {0}, next_handle = 1\<rparr>) \<and>
   status_queries
     \<lparr>clock = 0.2, serial_in = [], serial_out = [], api_command = [], api_status = [],
      http_requests = [Get ''http://roboarm.local/api/status'',
                       Get ''http://roboarm.local/api/status'',
                       Get ''http://roboarm.local/api/status''],
      open_handles = {0}, next_handle = 1\<rparr> = 3 \<and>
   wait_for_idle example_http_client 0.05 0.1
     (example_world [] [Some (example_reply True), Some (example_reply True)]) =
   Inr (False,
        \<lparr>clock = 0.1, serial_in = [], serial_out = [], api_command = [],
         api_status = [Some (example_reply True)],
         http_requests = [Get ''http://roboarm.local/api/status''],
         open_handles = {0}, next_handle = 1\<rparr>)"
proof -
  let ?v = "example_world [] [Some (example_reply True), Some (example_reply True)]"
  let ?v1 = "\<lparr>clock = 0.1, serial_in = [], serial_out = [], api_command = [],
              api_status = [Some (example_reply True)],
              http_requests = [Get ''http://roboarm.local/api/status''],
              open_handles = {0}, next_handle = 1\<rparr>"
  have q0: "poll_moving example_http_client 0.1 (clock ?v + 0.05) ?v 0"
    by (simp add: poll_moving_def example_http_eval)
  then have one_poll: "\<forall>k<1. poll_moving example_http_client 0.1 (clock ?v + 0.05) ?v k"
    by simp
  have start1: "poll_start example_http_client 0.1 ?v 1 = Inr ?v1"
    by (simp add: example_http_eval)
  have late: "\<not> clock ?v1 < clock ?v + 0.05"
    by (simp add: example_world_def)
  from wait_for_idle_polls [OF one_poll start1] late
  have timed_out: "wait_for_idle example_http_client 0.05 0.1 ?v = Inr (False, ?v1)"
    by blast
  let ?w = "example_world [] [Some (example_reply True), Some (example_reply True),
                              Some (example_reply False)]"
  let ?w2 = "\<lparr>clock = 0.2, serial_in = [], serial_out = [], api_command = [],
              api_status = [Some (example_reply False)],
              http_requests = [Get ''http://roboarm.local/api/status'',
                               Get ''http://roboarm.local/api/status''],
              open_handles = {0}, next_handle = 1\<rparr>"
  let ?w3 = "\<lparr>clock = 0.2, serial_in = [], serial_out = [], api_command = [], api_status = [],
              http_requests = [Get ''http://roboarm.local/api/status'',
                               Get ''http://roboarm.local/api/status'',
                               Get ''http://roboarm.local/api/status''],
              open_handles = {0}, next_handle = 1\<rparr>"
  have p0: "poll_moving example_http_client 0.1 (clock ?w + 60) ?w 0"
    by (simp add: poll_moving_def example_http_eval)
  have p1: "poll_moving example_http_client 0.1 (clock ?w + 60) ?w (Suc 0)"
    by (simp add: poll_moving_def example_http_eval)
  have polls: "\<forall>k<2. poll_moving example_http_client 0.1 (clock ?w + 60) ?w k"
    using p0 p1 by (auto simp: less_2_cases_iff)
  have start: "poll_start example_http_client 0.1 ?w 2 = Inr ?w2"
    by (simp add: numeral_2_eq_2 example_http_eval)
  have early: "clock ?w2 < clock ?w + 60"
    by (simp add: example_world_def)
  have last_poll: "status example_http_client ?w2 = Inr (from_dict (example_reply False), ?w3)"
    by (simp add: example_http_eval)
  have idle: "\<not> moving (from_dict (example_reply False))"
    by (simp add: example_http_eval)
  from wait_for_idle_polls [OF polls start] early last_poll idle
  have "wait_for_idle example_http_client 60 0.1 ?w = Inr (True, ?w3)"
    by blast
  with timed_out show ?thesis
    by (simp add: status_queries_def is_get_def)
qed

section \<open>Numbers as text and back\<close>

lemma below_ten:
  "d < 10 \<Longrightarrow> d = 0 \<or> d = 1 \<or> d = 2 \<or> d = 3 \<or> d = 4 \<or> d = 5 \<or> d = 6 \<or> d = 7 \<or> d = 8 \<or> d = (9::nat)"
  by arith

lemma digit_char_props:
  assumes "d < 10"
  shows "is_digit (digit_char d)" and "digit_val (digit_char d) = d"
    and "\<not> is_space (digit_char d)" and "digit_char d \<noteq> CHR '',''"
    and "digit_char d \<noteq> CHR ''-''" and "digit_char d \<noteq> CHR ''+''"
  using below_ten [OF assms]
  by (auto simp: is_digit_def digit_char_def digit_val_def is_space_def)

lemma str_of_nat_digits: "c \<in> set (str_of_nat n) \<Longrightarrow> is_digit c"
proof (induction n rule: str_of_nat.induct)
  case (1 n)
  show ?case
  proof (cases "n < 10")
    case True
    with "1.prems" show ?thesis
      by (simp add: str_of_nat.simps [of n] digit_char_props)
  next
    case False
    with "1.prems" "1.IH" show ?thesis
      by (auto simp: str_of_nat.simps [of n] digit_char_props)
  qed
qed

lemma str_of_nat_nonempty: "str_of_nat n \<noteq> []"
  by (simp add: str_of_nat.simps [of n])

lemma is_digit_plain:
  "is_digit c \<Longrightarrow> \<not> is_space c \<and> c \<noteq> CHR '','' \<and> c \<noteq> CHR ''-'' \<and> c \<noteq> CHR ''+'' \<and> c \<noteq> CHR ''_''"
  by (auto simp: is_digit_def is_space_def)

text \<open>Reading digits one by one, \<open>acc\<close> being the value so far.\<close>

lemma int_digits_all_digits:
  "\<forall>c\<in>set ds. is_digit c \<Longrightarrow>
   int_digits acc ds = Some (foldl (\<lambda>a c. a * 10 + digit_val c) acc ds)"
  by (induction ds arbitrary: acc) simp_all

lemma foldl_str_of_nat:
  "foldl (\<lambda>a c. a * 10 + digit_val c) acc (str_of_nat n) =
     acc * 10 ^ length (str_of_nat n) + n"
proof (induction n arbitrary: acc rule: str_of_nat.induct)
  case (1 n)
  show ?case
  proof (cases "n < 10")
    case True
    then show ?thesis by (simp add: str_of_nat.simps [of n] digit_char_props)
  next
    case False
    then have "n mod 10 < 10" by simp
    with False "1.IH" [of acc] show ?thesis
      by (simp add: str_of_nat.simps [of n] digit_char_props algebra_simps)
  qed
qed

lemma int_digits_str_of_nat: "int_digits 0 (str_of_nat n) = Some n"
proof -
  have "\<forall>c\<in>set (str_of_nat n). is_digit c"
    using str_of_nat_digits by blast
  from int_digits_all_digits [OF this, of 0] show ?thesis
    by (simp add: foldl_str_of_nat)
qed

lemma str_of_nat_inject:
  assumes "str_of_nat a = str_of_nat b"
  shows "a = b"
proof -
  have "Some a = int_digits 0 (str_of_nat a)"
    by (simp only: int_digits_str_of_nat)
  also have "\<dots> = int_digits 0 (str_of_nat b)"
    by (simp only: assms)
  also have "\<dots> = Some b"
    by (simp only: int_digits_str_of_nat)
  finally show ?thesis by simp
qed

lemma dropWhile_none: "\<forall>c\<in>set xs. \<not> P c \<Longrightarrow> dropWhile P xs = xs"
  by (cases xs) simp_all

lemma strip_no_space: "\<forall>c\<in>set s. \<not> is_space c \<Longrightarrow> strip s = s"
  by (simp add: strip_def dropWhile_none)

lemma str_of_int_plain:
  assumes "c \<in> set (str_of_int v)"
  shows "\<not> is_space c \<and> c \<noteq> CHR '',''"
proof -
  from assms have "c = CHR ''-'' \<or> c \<in> set (str_of_nat (nat (- v))) \<or> c \<in> set (str_of_nat (nat v))"
    by (auto simp: str_of_int_def split: if_splits)
  then have "c = CHR ''-'' \<or> is_digit c"
    using str_of_nat_digits by blast
  then show ?thesis
  proof
    assume "c = CHR ''-''"
    then show ?thesis by (simp add: is_space_def)
  next
    assume "is_digit c"
    then show ?thesis using is_digit_plain by blast
  qed
qed

text \<open>\<^verbatim>\<open>int\<close> on a row of digits, bare or after a minus sign.\<close>

lemma py_int_digits:
  assumes "\<forall>c\<in>set ds. is_digit c" and "ds \<noteq> []" and "int_digits 0 ds = Some n"
  shows "py_int ds = Inr (int n)" and "py_int (CHR ''-'' # ds) = Inr (- int n)"
proof -
  obtain d rest where ds: "ds = d # rest" using assms(2) by (cases ds) auto
  have d: "is_digit d" using assms(1) ds by simp
  have d_plain: "d \<noteq> CHR ''-''" "d \<noteq> CHR ''+''" using is_digit_plain [OF d] by simp_all
  have no_space: "\<forall>c\<in>set ds. \<not> is_space c"
    using assms(1) is_digit_plain by blast
  then have s1: "strip ds = ds" by (rule strip_no_space)
  have "\<forall>c\<in>set (CHR ''-'' # ds). \<not> is_space c"
    using no_space by (simp add: is_space_def)
  then have s2: "strip (CHR ''-'' # ds) = CHR ''-'' # ds" by (rule strip_no_space)
  show "py_int ds = Inr (int n)"
    unfolding py_int_def s1 using assms(3) d d_plain by (simp add: ds)
  show "py_int (CHR ''-'' # ds) = Inr (- int n)"
    unfolding py_int_def s2 using assms(3) d by (simp add: ds)
qed

text \<open>\<^verbatim>\<open>int(str(v))\<close> is \<open>v\<close>.\<close>

lemma py_int_str_of_int: "py_int (str_of_int v) = Inr v"
proof -
  have digits: "\<forall>c\<in>set (str_of_nat m). is_digit c" for m
    using str_of_nat_digits by blast
  show ?thesis
  proof (cases "v < 0")
    case True
    have "py_int (CHR ''-'' # str_of_nat (nat (- v))) = Inr (- int (nat (- v)))"
      by (rule py_int_digits(2) [OF digits str_of_nat_nonempty int_digits_str_of_nat])
    with True show ?thesis by (simp add: str_of_int_def)
  next
    case False
    have "py_int (str_of_nat (nat v)) = Inr (int (nat v))"
      by (rule py_int_digits(1) [OF digits str_of_nat_nonempty int_digits_str_of_nat])
    with False show ?thesis by (simp add: str_of_int_def)
  qed
qed

section \<open>Splitting a status line\<close>

lemma split_ws_from_run:
  "\<forall>c\<in>set t. \<not> is_space c \<Longrightarrow> split_ws_from cur (t @ rest) = split_ws_from (cur @ t) rest"
  by (induction t arbitrary: cur) simp_all

lemma split_ws_two:
  assumes "flags \<noteq> []" and "\<forall>c\<in>set flags. \<not> is_space c"
    and "tok \<noteq> []" and "\<forall>c\<in>set tok. \<not> is_space c"
  shows "split_ws (flags @ CHR '' '' # tok) = [flags, tok]"
proof -
  have "split_ws (flags @ CHR '' '' # tok) = split_ws_from flags (CHR '' '' # tok)"
    using split_ws_from_run [OF assms(2), of "[]" "CHR '' '' # tok"] by (simp add: split_ws_def)
  also have "\<dots> = flags # split_ws_from [] tok"
    using assms(1) by (simp add: is_space_def)
  also have "split_ws_from [] tok = split_ws_from tok []"
    using split_ws_from_run [OF assms(4), of "[]" "[]"] by simp
  also have "\<dots> = [tok]"
    using assms(3) by simp
  finally show ?thesis .
qed

lemma split_on_from_run:
  "sep \<notin> set t \<Longrightarrow> split_on_from sep cur (t @ rest) = split_on_from sep (cur @ t) rest"
  by (induction t arbitrary: cur) auto

lemma split_on_join:
  assumes "ts \<noteq> []" and "\<forall>t\<in>set ts. sep \<notin> set t"
  shows "split_on sep (join [sep] ts) = ts"
proof -
  have "split_on_from sep [] (join [sep] ts) = ts" using assms
  proof (induction ts)
    case Nil
    then show ?case by simp
  next
    case (Cons x xs)
    then have x: "sep \<notin> set x" by simp
    show ?case
    proof (cases xs)
      case Nil
      then show ?thesis using split_on_from_run [OF x, of "[]" "[]"] by simp
    next
      case (Cons y ys)
      with Cons.IH Cons.prems have "split_on_from sep [] (join [sep] xs) = xs" by simp
      then show ?thesis
        using split_on_from_run [OF x, of "[]" "sep # join [sep] xs"] Cons by simp
    qed
  qed
  then show ?thesis by (simp add: split_on_def)
qed

section \<open>Parsing the quick status line\<close>

lemma fill_positions_values:
  "fill_positions i (map str_of_int vs) posn = Inr (assign_joints i vs posn)"
  by (induction vs arbitrary: i posn)
    (simp_all add: assign_joints_def py_int_str_of_int joint_key_def)

lemma set_join:
  "c \<in> set (join [sep] ts) \<Longrightarrow> c = sep \<or> (\<exists>t\<in>set ts. c \<in> set t)"
proof (induction ts)
  case Nil
  then show ?case by simp
next
  case (Cons x xs)
  then show ?case by (cases xs) auto
qed

lemma position_token_plain:
  assumes "c \<in> set (''P:'' @ join '','' (map str_of_int vs))"
  shows "\<not> is_space c"
proof -
  from assms have "c = CHR ''P'' \<or> c = CHR '':'' \<or> c \<in> set (join '','' (map str_of_int vs))"
    by simp
  then consider "c = CHR ''P''" | "c = CHR '':''" | "c = CHR '',''"
    | v where "c \<in> set (str_of_int v)"
    using set_join [of c "CHR '',''" "map str_of_int vs"] by auto
  then show ?thesis
  proof cases
    case 4
    then show ?thesis using str_of_int_plain by blast
  qed (simp_all add: is_space_def)
qed

lemma quick_status_line:
  assumes "flags \<noteq> []" and "\<forall>c\<in>set flags. \<not> is_space c" and "vs \<noteq> []"
  shows "parse_quick_status (flags @ '' P:'' @ join '','' (map str_of_int vs)) =
           Inr \<lparr>enabled = (CHR ''E'' \<in> set flags), moving = (CHR ''M'' \<in> set flags),
                positions = assign_joints 0 vs Map.empty,
                targets = Map.empty, distances = Map.empty, ip = None, uptime = None\<rparr>"
proof -
  let ?tok = "''P:'' @ join '','' (map str_of_int vs)"
  have fields: "\<forall>t\<in>set (map str_of_int vs). CHR '','' \<notin> set t"
  proof
    fix t assume "t \<in> set (map str_of_int vs)"
    then obtain v where "t = str_of_int v" by auto
    then show "CHR '','' \<notin> set t" using str_of_int_plain [of "CHR '',''" v] by blast
  qed
  have tok_plain: "\<forall>c\<in>set ?tok. \<not> is_space c"
    using position_token_plain by blast
  have "split_ws (flags @ CHR '' '' # ?tok) = [flags, ?tok]"
    by (rule split_ws_two [OF assms(1,2) _ tok_plain]) simp
  then have parts: "split_ws (flags @ '' P:'' @ join '','' (map str_of_int vs)) = [flags, ?tok]"
    by simp
  have split_vals: "split_on CHR '','' (join '','' (map str_of_int vs)) = map str_of_int vs"
    by (rule split_on_join [OF _ fields]) (use assms(3) in simp)
  show ?thesis
    unfolding parse_quick_status_def parts
    by (simp add: Let_def startswith_def split_vals fill_positions_values)
qed

lemma assign_six:
  "assign_joints 0 [v1, v2, v3, v4, v5, v6] Map.empty =
     [''j1'' \<mapsto> v1, ''j2'' \<mapsto> v2, ''j3'' \<mapsto> v3, ''j4'' \<mapsto> v4, ''j5'' \<mapsto> v5, ''j6'' \<mapsto> v6]"
  by (simp add: assign_joints_def joint_key_def str_of_nat.simps digit_char_def)

text \<open>
  C2. A status line \<open><FLAGS> P:<v1,...,v6>\<close>, where \<open>FLAGS\<close> is a token (not empty, no
  white space) and the six values are integers written in decimal, parses to the status
  that is enabled exactly when \<open>FLAGS\<close> holds an \<open>E\<close>, moving exactly when it holds an
  \<open>M\<close>, has the six values as the positions of \<open>j1\<close> to \<open>j6\<close> in order, and has no
  targets and no distances. That is what a serial status query returns when the exchange
  returns this line as its message.
\<close>

theorem quick_status_parse:
  assumes "flags \<noteq> []" and "\<forall>c\<in>set flags. \<not> is_space c"
    and "line = flags @ '' P:'' @ join '','' (map str_of_int [v1, v2, v3, v4, v5, v6])"
    and "st = \<lparr>enabled = (CHR ''E'' \<in> set flags), moving = (CHR ''M'' \<in> set flags),
               positions = [''j1'' \<mapsto> v1, ''j2'' \<mapsto> v2, ''j3'' \<mapsto> v3,
                            ''j4'' \<mapsto> v4, ''j5'' \<mapsto> v5, ''j6'' \<mapsto> v6],
               targets = Map.empty, distances = Map.empty, ip = None, uptime = None\<rparr>"
  shows "parse_quick_status line = Inr st \<and>
         (self_mode self = ''serial'' \<and> send_command self ''?'' w = Inr (res, w') \<and>
          message res = line \<longrightarrow> status self w = Inr (st, w'))"
proof -
  have "parse_quick_status line = Inr st"
    unfolding assms(3,4)
    using quick_status_line [OF assms(1,2), of "[v1, v2, v3, v4, v5, v6]"]
    by (simp only: assign_six) simp
  then show ?thesis by (simp add: status_def)
qed

theorem quick_status_parse_witness:
  "parse_quick_status ''EM P:0,500,1000,0,0,0'' =
     Inr \<lparr>enabled = True, moving = True,
          positions = [''j1'' \<mapsto> 0, ''j2'' \<mapsto> 500, ''j3'' \<mapsto> 1000,
                       ''j4'' \<mapsto> 0, ''j5'' \<mapsto> 0, ''j6'' \<mapsto> 0],
          targets = Map.empty, distances = Map.empty, ip = None, uptime = None\<rparr> \<and>
   parse_quick_status ''- P:10,20,30,40,50,60'' =
     Inr \<lparr>enabled = False, moving = False,
          positions = [''j1'' \<mapsto> 10, ''j2'' \<mapsto> 20, ''j3'' \<mapsto> 30,
                       ''j4'' \<mapsto> 40, ''j5'' \<mapsto> 50, ''j6'' \<mapsto> 60],
          targets = Map.empty, distances = Map.empty, ip = None, uptime = None\<rparr>"
proof -
  have em: "''EM'' \<noteq> []" "\<forall>c\<in>set ''EM''. \<not> is_space c"
    and dash: "''-'' \<noteq> []" "\<forall>c\<in>set ''-''. \<not> is_space c"
    by (simp_all add: is_space_def)
  have l1: "''EM P:0,500,1000,0,0,0'' =
              ''EM'' @ '' P:'' @ join '','' (map str_of_int [0, 500, 1000, 0, 0, 0])"
    and l2: "''- P:10,20,30,40,50,60'' =
              ''-'' @ '' P:'' @ join '','' (map str_of_int [10, 20, 30, 40, 50, 60])"
    by (simp_all add: str_of_int_def str_of_nat.simps digit_char_def)
  from quick_status_parse [OF em l1 refl] quick_status_parse [OF dash l2 refl]
  show ?thesis by simp
qed

section \<open>The keys of a status\<close>

lemma joint_ids_keys: "joint_ids = joint_key ` {1..6}"
proof -
  have "{1..6::nat} = {1, 2, 3, 4, 5, 6}" by auto
  then show ?thesis
    by (simp add: joint_ids_def joint_key_def str_of_nat.simps digit_char_def)
qed

lemma joint_key_inj: "inj joint_key"
  by (rule injI) (simp add: joint_key_def str_of_nat_inject)

lemma joint_keys_within: "joint_key ` {1..n} \<subseteq> joint_ids \<longleftrightarrow> n \<le> 6"
proof -
  have "joint_key ` {1..n} \<subseteq> joint_key ` {1..6} \<longleftrightarrow> {1..n} \<subseteq> {1..6}"
    by (rule inj_image_subset_iff [OF joint_key_inj])
  then show ?thesis by (auto simp: joint_ids_keys)
qed

lemma fill_positions_dom:
  "fill_positions i vals posn = Inr m \<Longrightarrow>
   dom m = dom posn \<union> joint_key ` {i + 1..i + length vals}"
proof (induction vals arbitrary: i posn)
  case Nil
  then show ?case by simp
next
  case (Cons val vals)
  from Cons.prems obtain v where
    "fill_positions (Suc i) vals (posn(joint_key (i + 1) \<mapsto> v)) = Inr m"
    by (cases "py_int val") (simp_all add: joint_key_def)
  from Cons.IH [OF this]
  have "dom m = dom (posn(joint_key (i + 1) \<mapsto> v)) \<union> joint_key ` {Suc i + 1..Suc i + length vals}" .
  then have "dom m = insert (joint_key (i + 1)) (dom posn) \<union> joint_key ` {Suc i + 1..Suc i + length vals}"
    by (simp only: dom_fun_upd option.simps if_False)
  moreover have "{i + 1..i + length (val # vals)} = insert (i + 1) {Suc i + 1..Suc i + length vals}"
    by auto
  ultimately show ?case by simp
qed

lemma parse_quick_status_keys:
  assumes "parse_quick_status msg = Inr st"
  shows "targets st = Map.empty" and "distances st = Map.empty"
    and "dom (positions st) = joint_key ` {1..length (pos_values msg)}"
proof -
  from assms obtain flags others posn where
    parts: "split_ws msg = flags # others" and
    filled: "(if length (split_ws msg) > 1 \<and> startswith ''P:'' (split_ws msg ! 1)
              then fill_positions 0 (split_on CHR '','' (drop 2 (split_ws msg ! 1))) Map.empty
              else Inr Map.empty) = Inr posn" and
    st: "st = \<lparr>enabled = (CHR ''E'' \<in> set flags), moving = (CHR ''M'' \<in> set flags),
               positions = posn, targets = Map.empty, distances = Map.empty,
               ip = None, uptime = None\<rparr>"
    by (auto simp: parse_quick_status_def Let_def split: list.splits sum.splits)
  show "targets st = Map.empty" and "distances st = Map.empty"
    by (simp_all add: st)
  show "dom (positions st) = joint_key ` {1..length (pos_values msg)}"
  proof (cases "length (split_ws msg) > 1 \<and> startswith ''P:'' (split_ws msg ! 1)")
    case True
    with filled have "fill_positions 0 (pos_values msg) Map.empty = Inr posn"
      by (simp add: pos_values_def Let_def)
    from fill_positions_dom [OF this] show ?thesis by (simp add: st)
  next
    case False
    with filled show ?thesis by (auto simp: pos_values_def Let_def st)
  qed
qed

lemma status_serial_from_message:
  "self_mode self = ''serial'' \<Longrightarrow> send_command self ''?'' w = Inr (res, w') \<Longrightarrow>
   parse_quick_status (message res) = Inr st \<Longrightarrow> status self w = Inr (st, w')"
  by (simp add: status_def)

lemmas serial_exchange_eval =
  send_command_def send_serial_def example_serial_client_def example_world_def
  read_response.simps strip_def is_space_def startswith_def Let_def

lemma py_int_small:
  "py_int ''7'' = Inr 7" "py_int ''-8'' = Inr (- 8)"
  "py_int ''10'' = Inr 10" "py_int ''20'' = Inr 20" "py_int ''30'' = Inr 30"
  "py_int ''40'' = Inr 40" "py_int ''50'' = Inr 50" "py_int ''60'' = Inr 60"
  "py_int ''70'' = Inr 70"
  by (simp_all add: py_int_def strip_def is_space_def is_digit_def digit_val_def)

text \<open>
  C4, as the code has it. On the serial transport the targets and the distances of a
  status are empty and the keys of its positions are \<open>j1\<close> to \<open>jn\<close>, where \<open>n\<close> is
  the number of comma-separated values in the \<open>P:\<close> token of the reply (0 without such
  a token): they lie within \<open>j1\<close> to \<open>j6\<close> exactly when the reply has at most six
  values. Over HTTP the three dictionaries are the ones of the server's reply, empty
  where the reply has none: their keys are the server's.
\<close>

theorem status_key_sets:
  assumes "status self w = Inr (st, w')"
  shows "(self_mode self = ''serial'' \<longrightarrow>
            targets st = Map.empty \<and> distances st = Map.empty \<and>
            (\<exists>res. send_command self ''?'' w = Inr (res, w') \<and>
                   dom (positions st) = joint_key ` {1..length (pos_values (message res))} \<and>
                   (dom (positions st) \<subseteq> joint_ids \<longleftrightarrow>
                      length (pos_values (message res)) \<le> 6))) \<and>
         (self_mode self \<noteq> ''serial'' \<longrightarrow>
            (\<exists>data rest. api_status w = Some data # rest \<and>
               positions st = get_default (json_positions data) Map.empty \<and>
               targets st = get_default (json_targets data) Map.empty \<and>
               distances st = get_default (json_distances data) Map.empty))"
proof (cases "self_mode self = ''serial''")
  case True
  from assms True obtain res where
    sent: "send_command self ''?'' w = Inr (res, w')" and
    parsed: "parse_quick_status (message res) = Inr st"
    by (auto simp: status_def split: sum.splits)
  from parse_quick_status_keys [OF parsed] joint_keys_within [of "length (pos_values (message res))"]
  have "targets st = Map.empty" and "distances st = Map.empty"
    and "dom (positions st) = joint_key ` {1..length (pos_values (message res))}"
    and "dom (positions st) \<subseteq> joint_ids \<longleftrightarrow> length (pos_values (message res)) \<le> 6"
    by simp_all
  with sent True show ?thesis by blast
next
  case False
  with assms show ?thesis
    by (auto simp: status_def from_dict_def Let_def split: option.splits list.splits)
qed

theorem status_key_sets_witness:
  "status (example_serial_client 1) (example_world [(0, Some ''E P:7,-8''), (0, Some ''ok'')] []) =
     Inr (\<lparr>enabled = True, moving = False, positions = [''j1'' \<mapsto> 7, ''j2'' \<mapsto> - 8],
           targets = Map.empty, distances = Map.empty, ip = None, uptime = None\<rparr>,
          \<lparr>clock = 0, serial_in = [], serial_out = [''?'' @ [CHR 0x0A]], api_command = [],
           api_status = [], http_requests = [], open_handles = {0}, next_handle = 1\<rparr>) \<and>
   dom [''j1'' \<mapsto> 7, ''j2'' \<mapsto> - (8::int)] \<subseteq> joint_ids"
proof -
  let ?msg = "''E P:7,-8'' @ [CHR 0x0A] @ ''ok''"
  have mode: "self_mode (example_serial_client 1) = ''serial''"
    by (simp add: example_serial_client_def)
  have sent: "send_command (example_serial_client 1) ''?''
      (example_world [(0, Some ''E P:7,-8''), (0, Some ''ok'')] []) =
     Inr (\<lparr>success = True, message = ?msg\<rparr>,
          \<lparr>clock = 0, serial_in = [], serial_out = [''?'' @ [CHR 0x0A]], api_command = [],
           api_status = [], http_requests = [], open_handles = {0}, next_handle = 1\<rparr>)"
    by (simp add: serial_exchange_eval)
  have parts: "split_ws ?msg = [''E'', ''P:7,-8'', ''ok'']"
    by (simp add: split_ws_def is_space_def)
  have commas: "split_on CHR '','' ''7,-8'' = [''7'', ''-8'']"
    by (simp add: split_on_def)
  have parsed: "parse_quick_status ?msg =
     Inr \<lparr>enabled = True, moving = False, positions = [''j1'' \<mapsto> 7, ''j2'' \<mapsto> - 8],
          targets = Map.empty, distances = Map.empty, ip = None, uptime = None\<rparr>"
    unfolding parse_quick_status_def parts
    by (simp add: startswith_def commas py_int_small str_of_nat.simps digit_char_def)
  have run: "status (example_serial_client 1)
      (example_world [(0, Some ''E P:7,-8''), (0, Some ''ok'')] []) =
     Inr (\<lparr>enabled = True, moving = False, positions = [''j1'' \<mapsto> 7, ''j2'' \<mapsto> - 8],
           targets = Map.empty, distances = Map.empty, ip = None, uptime = None\<rparr>,
          \<lparr>clock = 0, serial_in = [], serial_out = [''?'' @ [CHR 0x0A]], api_command = [],
           api_status = [], http_requests = [], open_handles = {0}, next_handle = 1\<rparr>)"
    by (rule status_serial_from_message [OF mode sent]) (use parsed in simp)
  have two: "length (pos_values ?msg) = 2"
    unfolding pos_values_def parts by (simp add: startswith_def commas)
  define c where "c = example_serial_client 1"
  define w0 where "w0 = example_world [(0, Some ''E P:7,-8''), (0, Some ''ok'')] []"
  define w1 where "w1 = \<lparr>clock = 0, serial_in = [], serial_out = [''?'' @ [CHR 0x0A]],
           api_command = [], api_status = [], http_requests = [], open_handles = {0},
           next_handle = 1\<rparr>"
  define st where "st = \<lparr>enabled = True, moving = False,
           positions = [''j1'' \<mapsto> 7, ''j2'' \<mapsto> - (8::int)],
           targets = Map.empty, distances = Map.empty, ip = None, uptime = None\<rparr>"
  define r where "r = \<lparr>success = True, message = ?msg\<rparr>"
  have run': "status c w0 = Inr (st, w1)" and sent': "send_command c ''?'' w0 = Inr (r, w1)"
    and mode': "self_mode c = ''serial''"
    using run sent mode by (simp_all add: c_def w0_def w1_def st_def r_def)
  from status_key_sets [OF run'] mode' obtain res where
    "send_command c ''?'' w0 = Inr (res, w1)" and
    "dom (positions st) \<subseteq> joint_ids \<longleftrightarrow> length (pos_values (message res)) \<le> 6"
    by blast
  with sent' have "dom (positions st) \<subseteq> joint_ids \<longleftrightarrow> length (pos_values (message r)) \<le> 6"
    by simp
  moreover have "message r = ?msg" by (simp add: r_def)
  ultimately have "dom (positions st) \<subseteq> joint_ids"
    using two by simp
  then have "dom [''j1'' \<mapsto> 7, ''j2'' \<mapsto> - (8::int)] \<subseteq> joint_ids"
    by (simp add: st_def)
  then show ?thesis
    by (rule conjI [OF run])
qed

text \<open>
  The claim as worded bounds the keys for every reply. A controller that answers with
  seven values gets a seventh key, \<open>j7\<close>: nothing in \<^verbatim>\<open>status\<close> counts the values.
\<close>

theorem seventh_joint_counterexample:
  "status (example_serial_client 1)
      (example_world [(0, Some ''E P:10,20,30,40,50,60,70''), (0, Some ''ok'')] []) =
     Inr (\<lparr>enabled = True, moving = False,
           positions = [''j1'' \<mapsto> 10, ''j2'' \<mapsto> 20, ''j3'' \<mapsto> 30, ''j4'' \<mapsto> 40,
                        ''j5'' \<mapsto> 50, ''j6'' \<mapsto> 60, ''j7'' \<mapsto> 70],
           targets = Map.empty, distances = Map.empty, ip = None, uptime = None\<rparr>,
          \<lparr>clock = 0, serial_in = [], serial_out = [''?'' @ [CHR 0x0A]], api_command = [],
           api_status = [], http_requests = [], open_handles = {0}, next_handle = 1\<rparr>) \<and>
   \<not> dom [''j1'' \<mapsto> 10, ''j2'' \<mapsto> 20, ''j3'' \<mapsto> 30, ''j4'' \<mapsto> 40,
           ''j5'' \<mapsto> 50, ''j6'' \<mapsto> 60, ''j7'' \<mapsto> (70::int)] \<subseteq> joint_ids"
proof -
  let ?msg = "''E P:10,20,30,40,50,60,70'' @ [CHR 0x0A] @ ''ok''"
  have mode: "self_mode (example_serial_client 1) = ''serial''"
    by (simp add: example_serial_client_def)
  have sent: "send_command (example_serial_client 1) ''?''
      (example_world [(0, Some ''E P:10,20,30,40,50,60,70''), (0, Some ''ok'')] []) =
     Inr (\<lparr>success = True, message = ?msg\<rparr>,
          \<lparr>clock = 0, serial_in = [], serial_out = [''?'' @ [CHR 0x0A]], api_command = [],
           api_status = [], http_requests = [], open_handles = {0}, next_handle = 1\<rparr>)"
    by (simp add: serial_exchange_eval)
  have parts: "split_ws ?msg = [''E'', ''P:10,20,30,40,50,60,70'', ''ok'']"
    by (simp add: split_ws_def is_space_def)
  have commas: "split_on CHR '','' ''10,20,30,40,50,60,70'' =
                  [''10'', ''20'', ''30'', ''40'', ''50'', ''60'', ''70'']"
    by (simp add: split_on_def)
  have parsed: "parse_quick_status ?msg =
     Inr \<lparr>enabled = True, moving = False,
          positions = [''j1'' \<mapsto> 10, ''j2'' \<mapsto> 20, ''j3'' \<mapsto> 30, ''j4'' \<mapsto> 40,
                       ''j5'' \<mapsto> 50, ''j6'' \<mapsto> 60, ''j7'' \<mapsto> 70],
          targets = Map.empty, distances = Map.empty, ip = None, uptime = None\<rparr>"
    unfolding parse_quick_status_def parts
    by (simp add: startswith_def commas py_int_small str_of_nat.simps digit_char_def)
  have run: "status (example_serial_client 1)
      (example_world [(0, Some ''E P:10,20,30,40,50,60,70''), (0, Some ''ok'')] []) =
     Inr (\<lparr>enabled = True, moving = False,
           positions = [''j1'' \<mapsto> 10, ''j2'' \<mapsto> 20, ''j3'' \<mapsto> 30, ''j4'' \<mapsto> 40,
                        ''j5'' \<mapsto> 50, ''j6'' \<mapsto> 60, ''j7'' \<mapsto> 70],
           targets = Map.empty, distances = Map.empty, ip = None, uptime = None\<rparr>,
          \<lparr>clock = 0, serial_in = [], serial_out = [''?'' @ [CHR 0x0A]], api_command = [],
           api_status = [], http_requests = [], open_handles = {0}, next_handle = 1\<rparr>)"
    by (rule status_serial_from_message [OF mode sent]) (use parsed in simp)
  have "\<not> dom [''j1'' \<mapsto> 10, ''j2'' \<mapsto> 20, ''j3'' \<mapsto> 30, ''j4'' \<mapsto> 40,
           ''j5'' \<mapsto> 50, ''j6'' \<mapsto> 60, ''j7'' \<mapsto> (70::int)] \<subseteq> joint_ids"
    by (simp add: joint_ids_def)
  then show ?thesis
    by (rule conjI [OF run])
qed

end
